theory Spec2Isabelle
  imports Complex_Main
begin

section \<open>Errors and dense arrays\<close>

text \<open>
  The program is written against numpy. Every exception the modelled code can raise is a
  value of \<open>error\<close>; a computation that may raise returns \<open>error + 'a\<close> with \<open>Inl\<close> the
  exception. A two-dimensional array is the list of its rows. Entries are exact complex
  numbers; the rounding of double precision arithmetic is modelled apart, in the section on
  double precision, for the one property that depends on it (the product of the ladder
  operators). An array with no rows is the \<open>0 \<times> 0\<close> array.
\<close>

datatype error = IndexError | ValueError | AssertionError | NameError

type_synonym matrix = "complex list list"

definition nrows :: "matrix \<Rightarrow> nat" where
  "nrows M = length M"

definition ncols :: "matrix \<Rightarrow> nat" where
  "ncols M = (case M of [] \<Rightarrow> 0 | r # _ \<Rightarrow> length r)"

text \<open>The \<open>m \<times> n\<close> array whose entry at row \<open>i\<close>, column \<open>j\<close> is \<open>f i j\<close>.\<close>

definition mat_of :: "nat \<Rightarrow> nat \<Rightarrow> (nat \<Rightarrow> nat \<Rightarrow> complex) \<Rightarrow> matrix" where
  "mat_of m n f = map (\<lambda>i. map (\<lambda>j. f i j) [0..<n]) [0..<m]"

text \<open>\<open>np.zeros((m, n))\<close>, \<open>np.eye(n)\<close>.\<close>

definition np_zeros :: "nat \<Rightarrow> nat \<Rightarrow> matrix" where
  "np_zeros m n = replicate m (replicate n 0)"

definition np_eye :: "nat \<Rightarrow> matrix" where
  "np_eye n = mat_of n n (\<lambda>i j. if i = j then 1 else 0)"

text \<open>
  \<open>np.kron(A, B)\<close> for two-dimensional arrays: block \<open>(i, j)\<close> of the result is
  \<open>A[i, j] * B\<close>.
\<close>

definition np_kron :: "matrix \<Rightarrow> matrix \<Rightarrow> matrix" where
  "np_kron A B =
     mat_of (nrows A * nrows B) (ncols A * ncols B)
       (\<lambda>i j. A ! (i div nrows B) ! (j div ncols B) * B ! (i mod nrows B) ! (j mod ncols B))"

text \<open>
  \<open>np.dot(A, B)\<close> for two-dimensional arrays: the matrix product; numpy raises
  \<open>ValueError\<close> when the shapes are not aligned.
\<close>

definition np_dot :: "matrix \<Rightarrow> matrix \<Rightarrow> error + matrix" where
  "np_dot A B =
     (if ncols A \<noteq> nrows B then Inl ValueError
      else Inr (mat_of (nrows A) (ncols B)
                  (\<lambda>i j. sum_list (map (\<lambda>k. A ! i ! k * B ! k ! j) [0..<nrows B]))))"

text \<open>\<open>A.transpose()\<close>, \<open>A.conj()\<close> and the product of a scalar with an array.\<close>

definition np_transpose :: "matrix \<Rightarrow> matrix" where
  "np_transpose A = mat_of (ncols A) (nrows A) (\<lambda>i j. A ! j ! i)"

definition np_conj :: "matrix \<Rightarrow> matrix" where
  "np_conj A = map (map cnj) A"

definition np_scale :: "complex \<Rightarrow> matrix \<Rightarrow> matrix" where
  "np_scale c A = map (map (\<lambda>x. c * x)) A"

text \<open>
  Python indexing into an axis of length \<open>n\<close>: an index \<open>i\<close> with \<open>0 \<le> i < n\<close> is taken as
  it is, an index with \<open>-n \<le> i < 0\<close> counts from the end, anything else raises
  \<open>IndexError\<close>.
\<close>

definition norm_index :: "nat \<Rightarrow> int \<Rightarrow> error + nat" where
  "norm_index n i =
     (if 0 \<le> i \<and> i < int n then Inr (nat i)
      else if - int n \<le> i \<and> i < 0 then Inr (nat (int n + i))
      else Inl IndexError)"

text \<open>The assignment \<open>M[i, j] = v\<close>.\<close>

definition set_item :: "matrix \<Rightarrow> int \<Rightarrow> int \<Rightarrow> complex \<Rightarrow> error + matrix" where
  "set_item M i j v =
     (case norm_index (nrows M) i of
        Inl e \<Rightarrow> Inl e
      | Inr r \<Rightarrow>
          (case norm_index (ncols M) j of
             Inl e \<Rightarrow> Inl e
           | Inr c \<Rightarrow> Inr (M[r := (M ! r)[c := v]])))"

text \<open>
  \<open>np.diag(v, k)\<close> for a one-dimensional \<open>v\<close>: the square array of size \<open>len(v) + |k|\<close> with
  \<open>v\<close> on the \<open>k\<close>-th diagonal (\<open>k > 0\<close> above the main diagonal, \<open>k < 0\<close> below it).
\<close>

definition np_diag :: "complex list \<Rightarrow> int \<Rightarrow> matrix" where
  "np_diag v k =
     (let n = length v + nat \<bar>k\<bar>
      in mat_of n n (\<lambda>i j. if int j = int i + k then v ! (if 0 \<le> k then i else j) else 0))"

text \<open>\<open>np.arange(a, b, dtype=np.complex128)\<close>.\<close>

definition np_arange :: "nat \<Rightarrow> nat \<Rightarrow> complex list" where
  "np_arange a b = map of_nat [a..<b]"

section \<open>Quantum systems\<close>

text \<open>
  The class hierarchy \<open>QuantumSystem\<close>, \<open>SNO\<close>, \<open>SCQubit\<close> as record extensions. The field
  \<open>dim\<close> of the source is \<open>dimn\<close> here. \<open>T1\<close> and \<open>T2\<close> are \<open>None\<close> for \<open>np.Inf\<close>.
\<close>

record QuantumSystem =
  dimn :: nat
  name :: "string option"

record SNO = QuantumSystem +
  omega :: complex
  delta :: complex

record SCQubit = SNO +
  T1 :: "real option"
  T2 :: "real option"

definition zeros :: "'a QuantumSystem_scheme \<Rightarrow> matrix" where
  "zeros s = np_zeros (dimn s) (dimn s)"

text \<open>
  The class \<open>Hamiltonian\<close>: its constructor stores the matrix and its first dimension. The
  fields \<open>matrix\<close> and \<open>dim\<close> of the source are \<open>ham_matrix\<close> and \<open>ham_dim\<close> here (and
  \<open>dis_matrix\<close>, \<open>dis_dim\<close>, \<open>int_matrix\<close> in the classes below).
\<close>

record Hamiltonian =
  ham_matrix :: matrix
  interactionMatrix :: "matrix option"
  ham_dim :: nat

definition Hamiltonian_init :: "matrix \<Rightarrow> Hamiltonian" where
  "Hamiltonian_init M = \<lparr>ham_matrix = M, interactionMatrix = None, ham_dim = nrows M\<rparr>"

text \<open>
  \<open>SNO.Hnat\<close>: the loop \<open>for ct in range(1, self.dim)\<close> over the zero matrix, with the three
  branches of the source in their order.
\<close>

definition Hnat_entry :: "complex \<Rightarrow> complex \<Rightarrow> nat \<Rightarrow> complex" where
  "Hnat_entry om de ct =
     (if ct = 1 then of_nat ct * om
      else if ct = 2 then of_nat ct * om + de
      else of_nat ct * om + de * (of_nat ct - 1) * of_nat ct / 2)"

fun Hnat_loop :: "complex \<Rightarrow> complex \<Rightarrow> nat list \<Rightarrow> matrix \<Rightarrow> error + matrix" where
  "Hnat_loop om de [] H = Inr H"
| "Hnat_loop om de (ct # cts) H =
     (case set_item H (int ct) (int ct) (Hnat_entry om de ct) of
        Inl e \<Rightarrow> Inl e
      | Inr H' \<Rightarrow> Hnat_loop om de cts H')"

definition Hnat :: "'a SNO_scheme \<Rightarrow> error + Hamiltonian" where
  "Hnat s =
     (case Hnat_loop (omega s) (delta s) [1..<dimn s] (zeros s) of
        Inl e \<Rightarrow> Inl e
      | Inr H \<Rightarrow> Inr (Hamiltonian_init H))"

text \<open>\<open>raisingOp\<close>, \<open>loweringOp\<close>, \<open>numberOp\<close>, \<open>levelProjector\<close>.\<close>

definition raisingOp :: "'a SNO_scheme \<Rightarrow> matrix" where
  "raisingOp s = np_diag (map csqrt (np_arange 1 (dimn s))) (- 1)"

definition loweringOp :: "'a SNO_scheme \<Rightarrow> matrix" where
  "loweringOp s = np_diag (map csqrt (np_arange 1 (dimn s))) 1"

definition numberOp :: "'a SNO_scheme \<Rightarrow> matrix" where
  "numberOp s = np_diag (np_arange 0 (dimn s)) 0"

definition levelProjector :: "'a SNO_scheme \<Rightarrow> int \<Rightarrow> error + matrix" where
  "levelProjector s level = set_item (zeros s) level level 1"

text \<open>
  The Pauli operators of \<open>SCQubit\<close>: the assertion on the dimension, then two assignments
  into the zero matrix.
\<close>

definition set_two ::
  "matrix \<Rightarrow> int \<Rightarrow> int \<Rightarrow> complex \<Rightarrow> int \<Rightarrow> int \<Rightarrow> complex \<Rightarrow> error + matrix" where
  "set_two M i j v i' j' v' =
     (case set_item M i j v of Inl e \<Rightarrow> Inl e | Inr M' \<Rightarrow> set_item M' i' j' v')"

definition pauliZ :: "'a SCQubit_scheme \<Rightarrow> error + matrix" where
  "pauliZ s =
     (if \<not> dimn s > 1 then Inl AssertionError
      else set_two (zeros s) 0 0 1 1 1 (- 1))"

definition pauliX :: "'a SCQubit_scheme \<Rightarrow> error + matrix" where
  "pauliX s =
     (if \<not> dimn s > 1 then Inl AssertionError
      else set_two (zeros s) 0 1 1 1 0 1)"

definition pauliY :: "'a SCQubit_scheme \<Rightarrow> error + matrix" where
  "pauliY s =
     (if \<not> dimn s > 1 then Inl AssertionError
      else set_two (zeros s) 0 1 (- \<i>) 1 0 \<i>)"

text \<open>
  The identity of the qubit manifold in a \<open>d\<close>-dimensional space: \<open>diag(1, 1, 0, \<dots>, 0)\<close>.
\<close>

definition qubit_identity :: "nat \<Rightarrow> matrix" where
  "qubit_identity d = mat_of d d (\<lambda>i j. if i = j \<and> i < 2 then 1 else 0)"

section \<open>Hamiltonians, dissipators and interactions\<close>

text \<open>
  Sequencing of computations that may raise: the first exception is the result.
\<close>

definition ebind :: "error + 'a \<Rightarrow> ('a \<Rightarrow> error + 'b) \<Rightarrow> error + 'b" where
  "ebind m f = (case m of Inl e \<Rightarrow> Inl e | Inr x \<Rightarrow> f x)"

text \<open>
  The sum and the difference of two arrays follow numpy's broadcasting: along each axis
  the lengths are equal, or one of them is 1 and that operand is repeated; otherwise numpy
  raises \<open>ValueError\<close>. The in-place sum \<open>A += B\<close> moreover needs the broadcast shape to
  be the shape of \<open>A\<close>. A scalar is added to every entry.
\<close>

definition bcast_dim :: "nat \<Rightarrow> nat \<Rightarrow> nat option" where
  "bcast_dim a b =
     (if a = b then Some a else if a = 1 then Some b else if b = 1 then Some a else None)"

definition bcast_entry :: "matrix \<Rightarrow> nat \<Rightarrow> nat \<Rightarrow> complex" where
  "bcast_entry A i j = A ! (if nrows A = 1 then 0 else i) ! (if ncols A = 1 then 0 else j)"

definition np_add :: "matrix \<Rightarrow> matrix \<Rightarrow> error + matrix" where
  "np_add A B =
     (case bcast_dim (nrows A) (nrows B) of
        None \<Rightarrow> Inl ValueError
      | Some m \<Rightarrow>
          (case bcast_dim (ncols A) (ncols B) of
             None \<Rightarrow> Inl ValueError
           | Some n \<Rightarrow> Inr (mat_of m n (\<lambda>i j. bcast_entry A i j + bcast_entry B i j))))"

definition np_sub :: "matrix \<Rightarrow> matrix \<Rightarrow> error + matrix" where
  "np_sub A B =
     (case bcast_dim (nrows A) (nrows B) of
        None \<Rightarrow> Inl ValueError
      | Some m \<Rightarrow>
          (case bcast_dim (ncols A) (ncols B) of
             None \<Rightarrow> Inl ValueError
           | Some n \<Rightarrow> Inr (mat_of m n (\<lambda>i j. bcast_entry A i j - bcast_entry B i j))))"

definition np_iadd :: "matrix \<Rightarrow> matrix \<Rightarrow> error + matrix" where
  "np_iadd A B =
     ebind (np_add A B)
       (\<lambda>C. if nrows C = nrows A \<and> ncols C = ncols A then Inr C else Inl ValueError)"

definition np_add_scalar :: "matrix \<Rightarrow> complex \<Rightarrow> matrix" where
  "np_add_scalar A c = map (map (\<lambda>x. x + c)) A"

text \<open>
  The right operand of \<open>+\<close> and \<open>+=\<close>: an object with a \<open>matrix\<close> attribute, or else a raw
  array or a scalar, for which the source catches \<open>AttributeError\<close> and adds the operand
  itself.
\<close>

datatype operand = OHam Hamiltonian | ORaw matrix | OScalar complex

definition Hamiltonian_add :: "Hamiltonian \<Rightarrow> operand \<Rightarrow> error + Hamiltonian" where
  "Hamiltonian_add self other =
     (case other of
        OHam h \<Rightarrow> ebind (np_add (ham_matrix self) (ham_matrix h)) (\<lambda>M. Inr (Hamiltonian_init M))
      | ORaw B \<Rightarrow> ebind (np_add (ham_matrix self) B) (\<lambda>M. Inr (Hamiltonian_init M))
      | OScalar c \<Rightarrow> Inr (Hamiltonian_init (np_add_scalar (ham_matrix self) c)))"

definition Hamiltonian_iadd :: "Hamiltonian \<Rightarrow> operand \<Rightarrow> error + Hamiltonian" where
  "Hamiltonian_iadd self other =
     (case other of
        OHam h \<Rightarrow> ebind (np_iadd (ham_matrix self) (ham_matrix h)) (\<lambda>M. Inr (self\<lparr>ham_matrix := M\<rparr>))
      | ORaw B \<Rightarrow> ebind (np_iadd (ham_matrix self) B) (\<lambda>M. Inr (self\<lparr>ham_matrix := M\<rparr>))
      | OScalar c \<Rightarrow> Inr (self\<lparr>ham_matrix := np_add_scalar (ham_matrix self) c\<rparr>))"

text \<open>The class \<open>Dissipator\<close> and its \<open>superOpColStack\<close>.\<close>

record Dissipator =
  dis_matrix :: matrix
  dis_dim :: nat

definition Dissipator_init :: "matrix \<Rightarrow> Dissipator" where
  "Dissipator_init mat = \<lparr>dis_matrix = mat, dis_dim = nrows mat\<rparr>"

definition superOpColStack :: "Dissipator \<Rightarrow> error + matrix" where
  "superOpColStack self =
     (let L = dis_matrix self; tmpEye = np_eye (dis_dim self)
      in ebind (np_dot (np_transpose (np_conj L)) L) (\<lambda>LdL.
         ebind (np_sub (np_kron (np_conj L) L) (np_scale (1 / 2) (np_kron tmpEye LdL))) (\<lambda>X.
         ebind (np_dot (np_transpose L) (np_conj L)) (\<lambda>LtLc.
         np_sub X (np_scale (1 / 2) (np_kron LtLc tmpEye))))))"

text \<open>
  The class \<open>Interaction\<close>; \<open>createMat\<close> stores the matrix in the object or raises. The two
  systems are qubits, which have all the operators \<open>createMat\<close> asks for. An interaction type
  that is not a string (\<open>None\<close>, the default) behaves as any unknown string does.
\<close>

record Interaction =
  system1 :: SCQubit
  system2 :: SCQubit
  interactionType :: string
  interactionStrength :: complex
  int_matrix :: "matrix option"

definition createMat :: "Interaction \<Rightarrow> error + Interaction" where
  "createMat self =
     (if interactionType self = ''ZZ'' then
        ebind (pauliZ (system1 self)) (\<lambda>zA.
        ebind (pauliZ (system2 self)) (\<lambda>zB.
        Inr (self\<lparr>int_matrix := Some (np_scale (1 / 4 * interactionStrength self) (np_kron zA zB))\<rparr>)))
      else if interactionType self = ''FlipFlop'' then
        ebind (np_add (np_kron (loweringOp (system1 self)) (raisingOp (system2 self)))
                      (np_kron (raisingOp (system1 self)) (loweringOp (system2 self)))) (\<lambda>S.
        Inr (self\<lparr>int_matrix := Some (np_scale (interactionStrength self) S)\<rparr>))
      else Inl NameError)"

section \<open>Expansion into the full Hilbert space\<close>

text \<open>
  \<open>calc_perm_mat\<close>: the two nested loops assign a 1 at
  \<open>(ct1 * dim2 + ct2, ct2 * dim1 + ct1)\<close> of the zero matrix.
\<close>

fun set_ones :: "(nat \<times> nat) list \<Rightarrow> matrix \<Rightarrow> error + matrix" where
  "set_ones [] M = Inr M"
| "set_ones ((r, c) # ps) M = ebind (set_item M (int r) (int c) 1) (set_ones ps)"

definition calc_perm_mat :: "nat \<Rightarrow> nat \<Rightarrow> error + matrix" where
  "calc_perm_mat dim1 dim2 =
     set_ones
       (concat (map (\<lambda>ct1. map (\<lambda>ct2. (ct1 * dim2 + ct2, ct2 * dim1 + ct1)) [0..<dim2]) [0..<dim1]))
       (np_zeros (dim1 * dim2) (dim1 * dim2))"

text \<open>
  \<open>np.prod(dimensions[idx])\<close> for a list of indices: each index is normalised as Python
  does, and an index out of range raises.
\<close>

fun take_items :: "nat list \<Rightarrow> int list \<Rightarrow> error + nat list" where
  "take_items ds [] = Inr []"
| "take_items ds (i # idx) =
     ebind (norm_index (length ds) i) (\<lambda>k.
     ebind (take_items ds idx) (\<lambda>xs. Inr (ds ! k # xs)))"

definition prod_items :: "nat list \<Rightarrow> int list \<Rightarrow> error + nat" where
  "prod_items ds idx = ebind (take_items ds idx) (\<lambda>xs. Inr (prod_list xs))"

text \<open>\<open>np.nonzero(curIndices == ct)[0][0]\<close>: the first position of \<open>ct\<close>, or \<open>IndexError\<close>.\<close>

fun first_pos :: "int list \<Rightarrow> int \<Rightarrow> error + nat" where
  "first_pos [] v = Inl IndexError"
| "first_pos (x # xs) v = (if x = v then Inr 0 else ebind (first_pos xs v) (\<lambda>k. Inr (Suc k)))"

text \<open>\<open>curIndices[[i, j]] = curIndices[[j, i]]\<close>.\<close>

definition swap_items :: "int list \<Rightarrow> int \<Rightarrow> int \<Rightarrow> error + int list" where
  "swap_items cur i j =
     ebind (norm_index (length cur) j) (\<lambda>pj.
     ebind (norm_index (length cur) i) (\<lambda>pi.
     Inr (cur[pi := cur ! pj, pj := cur ! pi])))"

text \<open>
  \<open>np.prod(dimensions[curIndices[a:b]])\<close>, indexing \<open>dimensions\<close> with a slice of \<open>curIndices\<close>.
  When one of the two subsystem lists is empty, \<open>np.array([])\<close> has floating-point type and so
  has their concatenation \<open>curIndices\<close>; numpy refuses an index array of floating-point type
  with \<open>IndexError\<close>. The flag \<open>floatIndices\<close> says that \<open>curIndices\<close> is such an array.
\<close>

definition prod_through :: "bool \<Rightarrow> nat list \<Rightarrow> int list \<Rightarrow> error + nat" where
  "prod_through floatIndices ds idx = (if floatIndices then Inl IndexError else prod_items ds idx)"

text \<open>
  The body of the \<open>while\<close> loop. The state is \<open>(curIndices, totP)\<close>. The two dimensions
  given to \<open>calc_perm_mat\<close> are \<open>dimensions[curInd]\<close> and \<open>dimensions[curInd - 1]\<close>, read at
  the positions, as the source does.
\<close>

definition swap_step ::
  "bool \<Rightarrow> nat list \<Rightarrow> nat \<Rightarrow> int list \<times> matrix \<Rightarrow> error + int list \<times> matrix" where
  "swap_step floatIndices dimensions ct st =
     (let curIndices = fst st; totP = snd st
      in ebind (first_pos curIndices (int ct)) (\<lambda>curInd.
         ebind (norm_index (length dimensions) (int curInd)) (\<lambda>a.
         ebind (norm_index (length dimensions) (int curInd - 1)) (\<lambda>b.
         ebind (calc_perm_mat (dimensions ! a) (dimensions ! b)) (\<lambda>tmpP.
         ebind (if curInd > 1
                then prod_through floatIndices dimensions (take (curInd - 1) curIndices)
                else Inr 1) (\<lambda>preDim.
         ebind (if int curInd < int (length dimensions) - 1
                then prod_through floatIndices dimensions (drop (curInd + 1) curIndices)
                else Inr 1) (\<lambda>postDim.
         ebind (np_dot (np_kron (np_kron (np_eye preDim) tmpP) (np_eye postDim)) totP) (\<lambda>totP'.
         ebind (swap_items curIndices (int curInd - 1) (int curInd)) (\<lambda>curIndices'.
         Inr (curIndices', totP'))))))))))"

text \<open>
  The loop \<open>while ct < curIndices[ct]\<close>. A run that never leaves the loop is \<open>None\<close>.
\<close>

partial_function (option) swap_until ::
  "bool \<Rightarrow> nat list \<Rightarrow> nat \<Rightarrow> int list \<times> matrix \<Rightarrow> (error + int list \<times> matrix) option" where
  "swap_until floatIndices dimensions ct st =
     (if int ct < fst st ! ct
      then (case swap_step floatIndices dimensions ct st of
              Inl e \<Rightarrow> Some (Inl e)
            | Inr st' \<Rightarrow> swap_until floatIndices dimensions ct st')
      else Some (Inr st))"

declare swap_until.simps [code]

text \<open>The loop \<open>for ct in range(curIndices.size)\<close>.\<close>

fun sort_loop ::
  "bool \<Rightarrow> nat list \<Rightarrow> nat list \<Rightarrow> int list \<times> matrix \<Rightarrow> (error + int list \<times> matrix) option" where
  "sort_loop floatIndices dimensions [] st = Some (Inr st)"
| "sort_loop floatIndices dimensions (ct # cts) st =
     (case swap_until floatIndices dimensions ct st of
        None \<Rightarrow> None
      | Some (Inl e) \<Rightarrow> Some (Inl e)
      | Some (Inr st') \<Rightarrow> sort_loop floatIndices dimensions cts st')"

text \<open>
  \<open>expand_hilbert_space\<close>. The subsystem lists are lists of Python integers; \<open>None\<close> for
  \<open>eyeSubSystems\<close> is the empty list. \<open>curIndices\<close> has floating-point type when one of the
  two lists is empty.
\<close>

definition expand_hilbert_space ::
  "matrix \<Rightarrow> int list \<Rightarrow> int list \<Rightarrow> nat list \<Rightarrow> (error + matrix) option" where
  "expand_hilbert_space operator operatorSubSystems eyeSubSystems dimensions =
     (case (if eyeSubSystems \<noteq> [] then prod_items dimensions eyeSubSystems else Inr 1) of
        Inl e \<Rightarrow> Some (Inl e)
      | Inr dimEye \<Rightarrow>
          (let tmpMat = np_kron operator (np_eye dimEye);
               curIndices = operatorSubSystems @ eyeSubSystems;
               floatIndices = (operatorSubSystems = [] \<or> eyeSubSystems = []);
               totP = np_eye (nrows tmpMat)
           in case sort_loop floatIndices dimensions [0..<length curIndices] (curIndices, totP) of
                None \<Rightarrow> None
              | Some (Inl e) \<Rightarrow> Some (Inl e)
              | Some (Inr st) \<Rightarrow>
                  Some (ebind (np_dot (snd st) tmpMat) (\<lambda>X. np_dot X (np_transpose (snd st))))))"



section \<open>The embedding the specification describes\<close>

text \<open>
  The reference for \<open>expand_hilbert_space\<close>, written from the specification and not from the
  code: \<open>P \<cdot> (operator \<otimes> I) \<cdot> P\<^sup>T\<close>, where \<open>P\<close> takes the basis ordered as the acting
  subsystems followed by the passive ones to the canonical order \<open>0, \<dots>, N - 1\<close>.

  A basis state of the composite system gives each subsystem a level. In a basis ordered
  as \<open>order\<close>, its index is the mixed-radix number whose digits are the levels of the
  subsystems in that order, each with the dimension of its subsystem as radix, the first
  subsystem the most significant.
\<close>

fun digits :: "nat list \<Rightarrow> nat \<Rightarrow> nat list" where
  "digits [] r = []"
| "digits (d # ds) r = (r div prod_list ds) mod d # digits ds r"

fun undigits :: "nat list \<Rightarrow> nat list \<Rightarrow> nat" where
  "undigits (d # ds) (x # xs) = x * prod_list ds + undigits ds xs"
| "undigits ds xs = 0"

definition pos_of :: "nat list \<Rightarrow> nat \<Rightarrow> nat" where
  "pos_of order s = length (takeWhile (\<lambda>x. x \<noteq> s) order)"

text \<open>The canonical index of the basis state that has index \<open>r\<close> in the basis ordered as \<open>order\<close>.\<close>

definition canon_index :: "nat list \<Rightarrow> nat list \<Rightarrow> nat \<Rightarrow> nat" where
  "canon_index dims order r =
     (let xs = digits (map (\<lambda>s. dims ! s) order) r
      in undigits dims (map (\<lambda>s. xs ! pos_of order s) [0..<length dims]))"

definition basis_perm :: "nat list \<Rightarrow> nat list \<Rightarrow> matrix" where
  "basis_perm dims order =
     mat_of (prod_list dims) (prod_list dims) (\<lambda>c r. if canon_index dims order r = c then 1 else 0)"

definition mat_mul :: "matrix \<Rightarrow> matrix \<Rightarrow> matrix" where
  "mat_mul A B =
     mat_of (nrows A) (ncols B) (\<lambda>i j. sum_list (map (\<lambda>k. A ! i ! k * B ! k ! j) [0..<nrows B]))"

definition embed_spec :: "matrix \<Rightarrow> nat list \<Rightarrow> nat list \<Rightarrow> nat list \<Rightarrow> matrix" where
  "embed_spec operator acting passive dims =
     (let P = basis_perm dims (acting @ passive);
          I = np_eye (prod_list (map (\<lambda>s. dims ! s) passive))
      in mat_mul (mat_mul P (np_kron operator I)) (np_transpose P))"

text \<open>The entrywise sum and difference of two arrays of one shape, for stating results.\<close>

definition mat_add :: "matrix \<Rightarrow> matrix \<Rightarrow> matrix" where
  "mat_add A B = mat_of (nrows A) (ncols A) (\<lambda>i j. A ! i ! j + B ! i ! j)"

definition mat_sub :: "matrix \<Rightarrow> matrix \<Rightarrow> matrix" where
  "mat_sub A B = mat_of (nrows A) (ncols A) (\<lambda>i j. A ! i ! j - B ! i ! j)"

section \<open>Double precision\<close>

text \<open>
  \<open>complex128\<close> stores the real and the imaginary part of a number as IEEE 754 doubles: a
  significand of 53 bits, rounding to nearest, ties to the even significand. \<open>round_double\<close>
  is that rounding of a real number, with the exponent unbounded: overflow and subnormal
  numbers are not modelled, and there are none among the numbers between 1 and \<open>2\<^sup>5\<^sup>3\<close> met
  here.
\<close>

definition round_half_even :: "real \<Rightarrow> int" where
  "round_half_even x =
     (let f = \<lfloor>x\<rfloor>; r = x - of_int f
      in if r < 1 / 2 then f else if 1 / 2 < r then f + 1 else if even f then f else f + 1)"

definition round_double :: "real \<Rightarrow> real" where
  "round_double x =
     (if x = 0 then 0
      else (let e = \<lfloor>log 2 \<bar>x\<bar>\<rfloor> - 52
            in of_int (round_half_even (x / 2 powr of_int e)) * 2 powr of_int e))"

text \<open>
  The sum and the product of two \<open>complex128\<close> numbers: every real operation is rounded.
\<close>

definition c128_add :: "complex \<Rightarrow> complex \<Rightarrow> complex" where
  "c128_add a b = Complex (round_double (Re a + Re b)) (round_double (Im a + Im b))"

definition c128_mul :: "complex \<Rightarrow> complex \<Rightarrow> complex" where
  "c128_mul a b =
     Complex (round_double (round_double (Re a * Re b) - round_double (Im a * Im b)))
             (round_double (round_double (Re a * Im b) + round_double (Im a * Re b)))"

text \<open>
  \<open>np.sqrt(np.arange(a, b, dtype=np.complex128))\<close>. The numbers \<open>a, \<dots>, b - 1\<close> are stored
  exactly when they are below \<open>2\<^sup>5\<^sup>3\<close>; they are real and not negative, so the square root
  is the rounded real square root with imaginary part 0.
\<close>

definition sqrt_arange_c128 :: "nat \<Rightarrow> nat \<Rightarrow> complex list" where
  "sqrt_arange_c128 a b = map (\<lambda>k. Complex (round_double (sqrt (real k))) 0) [a..<b]"

text \<open>
  \<open>raisingOp\<close> and \<open>loweringOp\<close> with the entries as they are stored; \<open>np.diag\<close> copies them.
\<close>

definition raisingOp_c128 :: "'a SNO_scheme \<Rightarrow> matrix" where
  "raisingOp_c128 s = np_diag (sqrt_arange_c128 1 (dimn s)) (- 1)"

definition loweringOp_c128 :: "'a SNO_scheme \<Rightarrow> matrix" where
  "loweringOp_c128 s = np_diag (sqrt_arange_c128 1 (dimn s)) 1"

text \<open>
  The product of two stored matrices: an entry is the sum of the products of \<open>complex128\<close>
  numbers, the terms added one after the other in the order \<open>ks\<close>. numpy leaves that order
  to the linear algebra library, so it is a parameter here.
\<close>

definition mat_mul_c128 :: "nat list \<Rightarrow> matrix \<Rightarrow> matrix \<Rightarrow> matrix" where
  "mat_mul_c128 ks A B =
     mat_of (nrows A) (ncols B)
       (\<lambda>i j. foldl c128_add 0 (map (\<lambda>k. c128_mul (A ! i ! k) (B ! k ! j)) ks))"

section \<open>Facts about arrays\<close>

lemma length_mat_of: "length (mat_of m n f) = m"
  by (simp add: mat_of_def)

lemma nrows_mat_of: "nrows (mat_of m n f) = m"
  by (simp add: nrows_def mat_of_def)

lemma ncols_mat_of: "ncols (mat_of m n f) = (if m = 0 then 0 else n)"
  by (cases m) (simp_all add: ncols_def mat_of_def upt_conv_Cons del: upt_Suc)

lemma ncols_mat_of_pos: "0 < m \<Longrightarrow> ncols (mat_of m n f) = n"
  by (simp add: ncols_mat_of)

lemma ncols_mat_of_sq: "ncols (mat_of n n f) = n"
  by (simp add: ncols_mat_of)

lemma row_mat_of: "i < m \<Longrightarrow> mat_of m n f ! i = map (f i) [0..<n]"
  by (simp add: mat_of_def)

lemma entry_mat_of: "i < m \<Longrightarrow> j < n \<Longrightarrow> mat_of m n f ! i ! j = f i j"
  by (simp add: mat_of_def)

lemma mat_of_cong: "(\<And>i j. i < m \<Longrightarrow> j < n \<Longrightarrow> f i j = g i j) \<Longrightarrow> mat_of m n f = mat_of m n g"
  by (simp add: mat_of_def)

lemma np_zeros_mat_of: "np_zeros m n = mat_of m n (\<lambda>i j. 0)"
  by (simp add: np_zeros_def mat_of_def map_replicate_const)

lemma update_mat_of:
  assumes "r < m" "c < n"
  shows "(mat_of m n f)[r := (mat_of m n f ! r)[c := v]] =
         mat_of m n (\<lambda>i j. if i = r \<and> j = c then v else f i j)"
proof (rule nth_equalityI)
  show "length ((mat_of m n f)[r := (mat_of m n f ! r)[c := v]]) =
        length (mat_of m n (\<lambda>i j. if i = r \<and> j = c then v else f i j))"
    by (simp add: length_mat_of)
next
  fix i
  assume "i < length ((mat_of m n f)[r := (mat_of m n f ! r)[c := v]])"
  then have i: "i < m" by (simp add: length_mat_of)
  show "(mat_of m n f)[r := (mat_of m n f ! r)[c := v]] ! i =
        mat_of m n (\<lambda>i j. if i = r \<and> j = c then v else f i j) ! i"
  proof (cases "i = r")
    case True
    have "(map (f r) [0..<n])[c := v] = map (\<lambda>j. if j = c then v else f r j) [0..<n]"
      using assms(2) by (intro nth_equalityI) (simp_all add: nth_list_update)
    then show ?thesis
      using True i assms by (simp add: row_mat_of length_mat_of)
  next
    case False
    then show ?thesis
      using i by (simp add: row_mat_of length_mat_of)
  qed
qed

lemma set_item_mat_of:
  assumes "r < m" "c < n"
  shows "set_item (mat_of m n f) (int r) (int c) v =
         Inr (mat_of m n (\<lambda>i j. if i = r \<and> j = c then v else f i j))"
  using assms by (simp add: set_item_def norm_index_def nrows_mat_of ncols_mat_of update_mat_of)

lemma upt_0_2: "[0..<2] = [0, 1]"
  by code_simp

lemma upt_0_3: "[0..<3] = [0, 1, 2]"
  by code_simp

lemma upt_0_4: "[0..<4] = [0, 1, 2, 3]"
  by code_simp

lemma upt_0_6: "[0..<6] = [0, 1, 2, 3, 4, 5]"
  by code_simp

lemma csqrt_of_nat: "csqrt (of_nat n) = of_real (sqrt (real n))"
  by (simp add: csqrt_of_real_nonneg)

lemma sum_list_upt: "sum_list (map h [0..<n]) = (\<Sum>k<n. h k)"
  by (simp add: interv_sum_list_conv_sum_set_nat atLeast0LessThan)


lemma sum_list_zero:
  fixes h :: "nat \<Rightarrow> complex"
  assumes "\<And>k. k < n \<Longrightarrow> h k = 0"
  shows "sum_list (map h [0..<n]) = 0"
  using assms by (simp add: sum_list_upt)

lemma np_dot_mat_of:
  "np_dot (mat_of d d f) (mat_of d d g) =
   Inr (mat_of d d (\<lambda>i j. sum_list (map (\<lambda>k. f i k * g k j) [0..<d])))"
proof -
  have "mat_of d d (\<lambda>i j. sum_list (map (\<lambda>k. mat_of d d f ! i ! k * mat_of d d g ! k ! j) [0..<d])) =
        mat_of d d (\<lambda>i j. sum_list (map (\<lambda>k. f i k * g k j) [0..<d]))"
  proof (rule mat_of_cong)
    fix i j assume ij: "i < d" "j < d"
    have "map (\<lambda>k. mat_of d d f ! i ! k * mat_of d d g ! k ! j) [0..<d] =
          map (\<lambda>k. f i k * g k j) [0..<d]"
      by (rule map_cong) (use ij in \<open>simp_all add: entry_mat_of\<close>)
    then show "sum_list (map (\<lambda>k. mat_of d d f ! i ! k * mat_of d d g ! k ! j) [0..<d]) =
               sum_list (map (\<lambda>k. f i k * g k j) [0..<d])"
      by (rule arg_cong)
  qed
  then show ?thesis
    by (simp add: np_dot_def nrows_mat_of ncols_mat_of)
qed

lemma np_transpose_mat_of: "np_transpose (mat_of d d f) = mat_of d d (\<lambda>i j. f j i)"
  unfolding np_transpose_def nrows_mat_of ncols_mat_of_sq
  by (rule mat_of_cong) (simp add: entry_mat_of)

lemma np_conj_mat_of: "np_conj (mat_of m n f) = mat_of m n (\<lambda>i j. cnj (f i j))"
  by (simp add: np_conj_def mat_of_def)

lemma np_scale_mat_of: "np_scale c (mat_of m n f) = mat_of m n (\<lambda>i j. c * f i j)"
  by (simp add: np_scale_def mat_of_def)

lemma bcast_entry_mat_of:
  "i < m \<Longrightarrow> j < n \<Longrightarrow> bcast_entry (mat_of m n f) i j = f i j"
  by (auto simp: bcast_entry_def nrows_mat_of ncols_mat_of entry_mat_of)

lemma mat_of_0: "mat_of 0 n f = []"
  by (simp add: mat_of_def)

lemma bcast_dim_same: "bcast_dim a a = Some a"
  by (simp add: bcast_dim_def)

lemma np_sub_mat_of:
  "np_sub (mat_of m n f) (mat_of m n g) = Inr (mat_of m n (\<lambda>i j. f i j - g i j))"
proof (cases "m = 0")
  case True
  then show ?thesis
    by (simp add: np_sub_def mat_of_0 nrows_def ncols_def bcast_dim_same)
next
  case False
  have "mat_of m n (\<lambda>i j. bcast_entry (mat_of m n f) i j - bcast_entry (mat_of m n g) i j) =
        mat_of m n (\<lambda>i j. f i j - g i j)"
    by (rule mat_of_cong) (simp add: bcast_entry_mat_of)
  then show ?thesis
    using False by (simp add: np_sub_def nrows_mat_of ncols_mat_of bcast_dim_same)
qed

lemma np_add_mat_of:
  "np_add (mat_of m n f) (mat_of m n g) = Inr (mat_of m n (\<lambda>i j. f i j + g i j))"
proof (cases "m = 0")
  case True
  then show ?thesis
    by (simp add: np_add_def mat_of_0 nrows_def ncols_def bcast_dim_same)
next
  case False
  have "mat_of m n (\<lambda>i j. bcast_entry (mat_of m n f) i j + bcast_entry (mat_of m n g) i j) =
        mat_of m n (\<lambda>i j. f i j + g i j)"
    by (rule mat_of_cong) (simp add: bcast_entry_mat_of)
  then show ?thesis
    using False by (simp add: np_add_def nrows_mat_of ncols_mat_of bcast_dim_same)
qed

lemma mat_sub_mat_of:
  "mat_sub (mat_of m n f) (mat_of m n g) = mat_of m n (\<lambda>i j. f i j - g i j)"
proof (cases "m = 0")
  case True
  then show ?thesis by (simp add: mat_sub_def mat_of_0 nrows_def)
next
  case False
  then show ?thesis
    unfolding mat_sub_def nrows_mat_of
    by (simp add: ncols_mat_of) (rule mat_of_cong, simp add: entry_mat_of)
qed

lemma mat_mul_mat_of:
  "mat_mul (mat_of d d f) (mat_of d d g) =
   mat_of d d (\<lambda>i j. sum_list (map (\<lambda>k. f i k * g k j) [0..<d]))"
  using np_dot_mat_of [of d f g]
  by (simp add: np_dot_def mat_mul_def nrows_mat_of ncols_mat_of)

lemma np_kron_mat_of:
  "np_kron (mat_of m m f) (mat_of n n g) =
   mat_of (m * n) (m * n) (\<lambda>i j. f (i div n) (j div n) * g (i mod n) (j mod n))"
proof -
  have lt: "i div n < m \<and> i mod n < n" if "i < m * n" for i
  proof -
    have "0 < n" using that by (cases n) auto
    then show ?thesis using that by (simp add: less_mult_imp_div_less)
  qed
  show ?thesis
    unfolding np_kron_def nrows_mat_of ncols_mat_of_sq
    by (rule mat_of_cong) (simp add: entry_mat_of lt)
qed

lemma np_eye_mat_of: "np_eye n = mat_of n n (\<lambda>i j. if i = j then 1 else 0)"
  by (simp add: np_eye_def)

lemma square_mat_of:
  assumes "length L = d" "\<forall>r\<in>set L. length r = d"
  shows "L = mat_of d d (\<lambda>i j. L ! i ! j)"
proof (rule nth_equalityI)
  show "length L = length (mat_of d d (\<lambda>i j. L ! i ! j))"
    using assms by (simp add: length_mat_of)
next
  fix i assume "i < length L"
  then have i: "i < d" and len: "length (L ! i) = d" using assms by auto
  show "L ! i = mat_of d d (\<lambda>i j. L ! i ! j) ! i"
    using i len by (simp add: row_mat_of list_eq_iff_nth_eq)
qed

lemma shape_1:
  "nrows [r0] = 1" "ncols ([a0] # M) = 1"
  by (simp_all add: nrows_def ncols_def)

lemma shape_2:
  "nrows [r0, r1] = 2" "ncols ([a0, a1] # M) = 2"
  by (simp_all add: nrows_def ncols_def)

lemma shape_3:
  "nrows [r0, r1, r2] = 3" "ncols ([a0, a1, a2] # M) = 3"
  by (simp_all add: nrows_def ncols_def)

lemma shape_4:
  "nrows [r0, r1, r2, r3] = 4" "ncols ([a0, a1, a2, a3] # M) = 4"
  by (simp_all add: nrows_def ncols_def)

lemma shape_6:
  "nrows [r0, r1, r2, r3, r4, r5] = 6" "ncols ([a0, a1, a2, a3, a4, a5] # M) = 6"
  by (simp_all add: nrows_def ncols_def)

lemmas shape_simps = shape_1 shape_2 shape_3 shape_4 shape_6

lemma eye_1: "np_eye (Suc 0) = [[1]]"
  by (simp add: np_eye_def mat_of_def)

lemma eye_2: "np_eye 2 = [[1, 0], [0, 1]]"
  by (simp add: np_eye_def mat_of_def upt_0_2)

lemma eye_4: "np_eye 4 = [[1, 0, 0, 0], [0, 1, 0, 0], [0, 0, 1, 0], [0, 0, 0, 1]]"
  by (simp add: np_eye_def mat_of_def upt_0_4)

lemma eye_6:
  "np_eye 6 = [[1, 0, 0, 0, 0, 0], [0, 1, 0, 0, 0, 0], [0, 0, 1, 0, 0, 0],
               [0, 0, 0, 1, 0, 0], [0, 0, 0, 0, 1, 0], [0, 0, 0, 0, 0, 1]]"
  by (simp add: np_eye_def mat_of_def upt_0_6)

lemma upt_0_8: "[0..<8] = [0, 1, 2, 3, 4, 5, 6, 7]"
  by code_simp

lemma shape_8:
  "nrows [r0, r1, r2, r3, r4, r5, r6, r7] = 8" "ncols ([a0, a1, a2, a3, a4, a5, a6, a7] # M) = 8"
  by (simp_all add: nrows_def ncols_def)

lemma eye_8:
  "np_eye 8 =
     [[1, 0, 0, 0, 0, 0, 0, 0],
     [0, 1, 0, 0, 0, 0, 0, 0],
     [0, 0, 1, 0, 0, 0, 0, 0],
     [0, 0, 0, 1, 0, 0, 0, 0],
     [0, 0, 0, 0, 1, 0, 0, 0],
     [0, 0, 0, 0, 0, 1, 0, 0],
     [0, 0, 0, 0, 0, 0, 1, 0],
     [0, 0, 0, 0, 0, 0, 0, 1]]"
  by (simp add: np_eye_def mat_of_def upt_0_8)

lemma kron_one_left: "np_kron [[1]] M = mat_of (nrows M) (ncols M) (\<lambda>i j. M ! i ! j)"
  unfolding np_kron_def shape_simps mult_1
  by (rule mat_of_cong) simp

lemma kron_one_right: "np_kron M [[1]] = mat_of (nrows M) (ncols M) (\<lambda>i j. M ! i ! j)"
  by (simp add: np_kron_def shape_simps)

section \<open>The operators of an oscillator\<close>

lemma Hnat_loop_mat_of:
  "\<forall>ct\<in>set cts. ct < d \<Longrightarrow>
   Hnat_loop om de cts (mat_of d d f) =
   Inr (mat_of d d (\<lambda>i j. if i = j \<and> i \<in> set cts then Hnat_entry om de i else f i j))"
proof (induction cts arbitrary: f)
  case Nil
  then show ?case by simp
next
  case (Cons ct cts)
  have ct: "ct < d" and rest: "\<forall>c\<in>set cts. c < d"
    using Cons.prems by simp_all
  have "Hnat_loop om de (ct # cts) (mat_of d d f) =
        Hnat_loop om de cts (mat_of d d (\<lambda>i j. if i = ct \<and> j = ct then Hnat_entry om de ct else f i j))"
    using ct by (simp add: set_item_mat_of)
  also have "\<dots> = Inr (mat_of d d (\<lambda>i j. if i = j \<and> i \<in> set cts then Hnat_entry om de i
                     else if i = ct \<and> j = ct then Hnat_entry om de ct else f i j))"
    by (rule Cons.IH [OF rest])
  also have "\<dots> = Inr (mat_of d d (\<lambda>i j. if i = j \<and> i \<in> set (ct # cts) then Hnat_entry om de i else f i j))"
    by (auto intro!: mat_of_cong)
  finally show ?case .
qed

text \<open>
  Claim C5. For every oscillator, \<open>Hnat\<close> returns (without raising) the Hamiltonian whose
  matrix is the \<open>d \<times> d\<close> diagonal matrix with entry 0 at level 0, \<open>k * omega\<close> at level
  \<open>k = 1\<close> and \<open>k * omega + delta * (k - 1) * k / 2\<close> at every level \<open>k \<ge> 2\<close>; every
  off-diagonal entry is 0.
\<close>

theorem Hnat_diagonal:
  "Hnat s =
   Inr (Hamiltonian_init
     (mat_of (dimn s) (dimn s)
        (\<lambda>i j. if i = j
               then (if i = 0 then 0
                     else if i = 1 then of_nat i * omega s
                     else of_nat i * omega s + delta s * (of_nat i - 1) * of_nat i / 2)
               else 0)))"
proof -
  have "Hnat_loop (omega s) (delta s) [1..<dimn s] (zeros s) =
        Inr (mat_of (dimn s) (dimn s)
          (\<lambda>i j. if i = j \<and> i \<in> set [1..<dimn s] then Hnat_entry (omega s) (delta s) i else 0))"
    unfolding zeros_def np_zeros_mat_of by (rule Hnat_loop_mat_of) simp
  also have "mat_of (dimn s) (dimn s)
          (\<lambda>i j. if i = j \<and> i \<in> set [1..<dimn s] then Hnat_entry (omega s) (delta s) i else 0) =
     mat_of (dimn s) (dimn s)
        (\<lambda>i j. if i = j
               then (if i = 0 then 0
                     else if i = 1 then of_nat i * omega s
                     else of_nat i * omega s + delta s * (of_nat i - 1) * of_nat i / 2)
               else 0)"
    by (rule mat_of_cong) (auto simp: Hnat_entry_def)
  finally show ?thesis by (simp add: Hnat_def)
qed

lemma levelProjector_cases:
  "levelProjector s level =
     (if 0 \<le> level \<and> level < int (dimn s)
      then Inr (mat_of (dimn s) (dimn s) (\<lambda>i j. if i = nat level \<and> j = nat level then 1 else 0))
      else if - int (dimn s) \<le> level \<and> level < 0
      then Inr (mat_of (dimn s) (dimn s)
                 (\<lambda>i j. if i = nat (int (dimn s) + level) \<and> j = nat (int (dimn s) + level) then 1 else 0))
      else Inl IndexError)"
proof -
  let ?d = "dimn s"
  have z: "zeros s = mat_of ?d ?d (\<lambda>i j. 0)"
    by (simp add: zeros_def np_zeros_mat_of)
  show ?thesis
  proof (cases "0 \<le> level \<and> level < int ?d")
    case True
    then have "nat level < ?d" by linarith
    from set_item_mat_of [OF this this, of "\<lambda>i j. 0" 1] True show ?thesis
      by (simp add: levelProjector_def z)
  next
    case False
    show ?thesis
    proof (cases "- int ?d \<le> level \<and> level < 0")
      case True
      then have lt: "nat (int ?d + level) < ?d" by linarith
      have "norm_index ?d level = Inr (nat (int ?d + level))"
        using True by (simp add: norm_index_def)
      moreover have "0 < ?d" using True by linarith
      ultimately show ?thesis
        using True False lt
        by (simp add: levelProjector_def z set_item_def nrows_mat_of ncols_mat_of update_mat_of)
    next
      case F2: False
      then show ?thesis using False
        by (auto simp add: levelProjector_def z set_item_def nrows_mat_of norm_index_def)
    qed
  qed
qed

lemma loweringOp_mat_of:
  assumes "0 < dimn s"
  shows "loweringOp s =
         mat_of (dimn s) (dimn s) (\<lambda>i j. if j = Suc i then of_real (sqrt (real j)) else 0)"
proof -
  have n: "dimn s - 1 + nat \<bar>1\<bar> = dimn s" using assms by simp
  show ?thesis
    unfolding loweringOp_def np_diag_def np_arange_def Let_def length_map length_upt n
    by (rule mat_of_cong) (auto simp: csqrt_of_nat)
qed

lemma raisingOp_mat_of:
  assumes "0 < dimn s"
  shows "raisingOp s =
         mat_of (dimn s) (dimn s) (\<lambda>i j. if i = Suc j then of_real (sqrt (real i)) else 0)"
proof -
  have n: "dimn s - 1 + nat \<bar>- 1\<bar> = dimn s" using assms by simp
  show ?thesis
    unfolding raisingOp_def np_diag_def np_arange_def Let_def length_map length_upt n
    by (rule mat_of_cong) (auto simp: csqrt_of_nat)
qed

lemma numberOp_mat_of:
  "numberOp s = mat_of (dimn s) (dimn s) (\<lambda>i j. if i = j then of_nat i else 0)"
proof -
  have n: "dimn s - 0 + nat \<bar>0\<bar> = dimn s" by simp
  show ?thesis
    unfolding numberOp_def np_diag_def np_arange_def Let_def length_map length_upt n
    by (rule mat_of_cong) auto
qed

text \<open>
  Claim C10. For an oscillator (or qubit) of dimension \<open>d \<ge> 1\<close>, \<open>levelProjector(level)\<close>
  raises exactly when \<open>level \<ge> d\<close> or \<open>level < -d\<close>; for a negative level with
  \<open>-d \<le> level \<le> -1\<close> it does not raise and returns the projector with its single 1 at
  \<open>(d + level, d + level)\<close>.
\<close>

theorem levelProjector_wraps:
  assumes "0 < dimn s"
  shows "((\<exists>e. levelProjector s level = Inl e) \<longleftrightarrow>
            (int (dimn s) \<le> level \<or> level < - int (dimn s)))
       \<and> (- int (dimn s) \<le> level \<and> level \<le> - 1 \<longrightarrow>
            levelProjector s level =
              Inr (mat_of (dimn s) (dimn s)
                    (\<lambda>i j. if i = nat (int (dimn s) + level) \<and> j = nat (int (dimn s) + level)
                           then 1 else 0)))"
  using assms by (auto simp: levelProjector_cases)

text \<open>The same at \<open>d = 3\<close>: level \<open>-1\<close> is level 2, levels 3 and \<open>-4\<close> raise, level \<open>-3\<close> does not.\<close>

theorem levelProjector_wraps_witness:
  "levelProjector \<lparr>dimn = 3, name = None, omega = 5, delta = - 1\<rparr> (- 1) =
     Inr [[0, 0, 0], [0, 0, 0], [0, 0, 1]]
   \<and> (\<exists>e. levelProjector \<lparr>dimn = 3, name = None, omega = 5, delta = - 1\<rparr> 3 = Inl e)
   \<and> (\<exists>e. levelProjector \<lparr>dimn = 3, name = None, omega = 5, delta = - 1\<rparr> (- 4) = Inl e)
   \<and> \<not> (\<exists>e. levelProjector \<lparr>dimn = 3, name = None, omega = 5, delta = - 1\<rparr> (- 3) = Inl e)"
  using levelProjector_wraps [of "\<lparr>dimn = 3, name = None, omega = 5, delta = - 1\<rparr>" "- 1"]
    levelProjector_wraps [of "\<lparr>dimn = 3, name = None, omega = 5, delta = - 1\<rparr>" 3]
    levelProjector_wraps [of "\<lparr>dimn = 3, name = None, omega = 5, delta = - 1\<rparr>" "- 4"]
    levelProjector_wraps [of "\<lparr>dimn = 3, name = None, omega = 5, delta = - 1\<rparr>" "- 3"]
  by (simp add: mat_of_def upt_0_3)

text \<open>
  Claim C3 as stated puts the lowering operator on the sub-diagonal and the raising operator
  on the super-diagonal. At \<open>d = 2\<close> the code gives the opposite: the entry \<open>(1, 0)\<close> of
  \<open>loweringOp\<close> and the entry \<open>(0, 1)\<close> of \<open>raisingOp\<close> are 0, not \<open>sqrt 1\<close>.
\<close>

theorem ladder_ops_claimed_counterexample:
  "loweringOp \<lparr>dimn = 2, name = None, omega = 5, delta = - 1\<rparr> ! 1 ! 0 \<noteq> complex_of_real (sqrt 1)
   \<and> raisingOp \<lparr>dimn = 2, name = None, omega = 5, delta = - 1\<rparr> ! 0 ! 1 \<noteq> complex_of_real (sqrt 1)
   \<and> loweringOp \<lparr>dimn = 2, name = None, omega = 5, delta = - 1\<rparr> = [[0, 1], [0, 0]]
   \<and> raisingOp \<lparr>dimn = 2, name = None, omega = 5, delta = - 1\<rparr> = [[0, 0], [1, 0]]"
  by (simp add: loweringOp_mat_of raisingOp_mat_of mat_of_def upt_0_2)

text \<open>
  Claim C3, amended. For every oscillator of dimension \<open>d \<ge> 1\<close>, \<open>loweringOp\<close> is the
  \<open>d \<times> d\<close> matrix with \<open>sqrt k\<close> on the super-diagonal, at position \<open>(k - 1, k)\<close> for
  \<open>k = 1, \<dots>, d - 1\<close>, and \<open>raisingOp\<close> is the \<open>d \<times> d\<close> matrix with \<open>sqrt k\<close> on the
  sub-diagonal, at position \<open>(k, k - 1)\<close>; all other entries of both are zero.
\<close>

theorem ladder_ops_entries:
  assumes "0 < dimn s"
  shows "loweringOp s =
           mat_of (dimn s) (dimn s) (\<lambda>i j. if j = i + 1 then complex_of_real (sqrt (real j)) else 0)
       \<and> raisingOp s =
           mat_of (dimn s) (dimn s) (\<lambda>i j. if i = j + 1 then complex_of_real (sqrt (real i)) else 0)"
  using loweringOp_mat_of [OF assms] raisingOp_mat_of [OF assms] by simp

text \<open>The two operators at \<open>d = 3\<close>.\<close>

theorem ladder_ops_entries_witness:
  "loweringOp \<lparr>dimn = 3, name = None, omega = 5, delta = - 1\<rparr> =
     [[0, 1, 0], [0, 0, complex_of_real (sqrt 2)], [0, 0, 0]]
   \<and> raisingOp \<lparr>dimn = 3, name = None, omega = 5, delta = - 1\<rparr> =
     [[0, 0, 0], [1, 0, 0], [0, complex_of_real (sqrt 2), 0]]"
  using ladder_ops_entries [of "\<lparr>dimn = 3, name = None, omega = 5, delta = - 1\<rparr>"]
  by (simp add: mat_of_def upt_0_3)

section \<open>The ladder operators in double precision\<close>

subsection \<open>Rounding\<close>

lemma rhe_cases: "round_half_even x = \<lfloor>x\<rfloor> \<or> round_half_even x = \<lfloor>x\<rfloor> + 1"
  by (simp add: round_half_even_def Let_def)

lemma rhe_of_int: "round_half_even (of_int m) = m"
  by (simp add: round_half_even_def)

lemma rhe_err: "\<bar>of_int (round_half_even x) - x\<bar> \<le> 1 / 2"
proof -
  have "of_int \<lfloor>x\<rfloor> \<le> x" "x < of_int \<lfloor>x\<rfloor> + 1" by linarith+
  then show ?thesis
    by (auto simp: round_half_even_def Let_def)
qed

lemma rhe_eqI:
  assumes "\<bar>x - of_int m\<bar> < 1 / 2"
  shows "round_half_even x = m"
proof -
  have "\<bar>real_of_int (round_half_even x) - of_int m\<bar> < 1"
    using rhe_err [of x] assms by linarith
  then have "\<bar>real_of_int (round_half_even x - m)\<bar> < 1" by simp
  then have "\<bar>round_half_even x - m\<bar> < 1" by linarith
  then show ?thesis by simp
qed

lemma rhe_ge:
  assumes "of_int a \<le> x"
  shows "a \<le> round_half_even x"
proof -
  have "a \<le> \<lfloor>x\<rfloor>" using assms by (simp add: le_floor_iff)
  then show ?thesis using rhe_cases [of x] by linarith
qed

lemma rhe_le:
  assumes "x \<le> of_int b"
  shows "round_half_even x \<le> b"
proof (cases "x = of_int b")
  case True
  then show ?thesis by (simp add: rhe_of_int)
next
  case False
  then have "x < of_int b" using assms by simp
  then have "\<lfloor>x\<rfloor> < b" by (simp add: floor_less_iff)
  then show ?thesis using rhe_cases [of x] by auto
qed

lemma round_double_pos:
  assumes "0 < x" "2 powr of_int E \<le> x" "x < 2 powr (of_int E + 1)"
  shows "round_double x =
         of_int (round_half_even (x / 2 powr of_int (E - 52))) * 2 powr of_int (E - 52)"
proof -
  have "\<lfloor>log 2 x\<rfloor> = E"
    using assms by (simp add: floor_log_eq_powr_iff)
  then show ?thesis
    using assms(1) by (simp add: round_double_def Let_def)
qed

lemma binade_exists:
  assumes "0 < (x::real)"
  shows "\<exists>E::int. 2 powr of_int E \<le> x \<and> x < 2 powr (of_int E + 1)"
  using floor_log_eq_powr_iff [of x 2 "\<lfloor>log 2 x\<rfloor>"] assms by auto

lemma round_double_representable:
  assumes "2 ^ 52 \<le> m" "m < 2 ^ 53"
  shows "round_double (of_int m * 2 powr of_int q) = of_int m * 2 powr of_int q"
proof -
  let ?x = "real_of_int m * 2 powr of_int q"
  have m: "(2::real) ^ 52 \<le> of_int m" "real_of_int m < 2 ^ 53"
    using assms by (metis of_int_le_iff of_int_numeral of_int_power, metis of_int_less_iff of_int_numeral of_int_power)
  have pos: "0 < ?x" using m by (simp add: zero_less_mult_iff) 
  have p52: "2 powr of_int (q + 52) = 2 powr of_int q * (2::real) ^ 52"
    by (simp add: powr_add)
  have p53: "2 powr (of_int (q + 52) + 1) = 2 powr of_int q * (2::real) ^ 53"
    by (simp add: powr_add)
  have lo: "2 powr of_int (q + 52) \<le> ?x"
    unfolding p52 using m by (simp add: mult.commute)
  have hi: "?x < 2 powr (of_int (q + 52) + 1)"
    unfolding p53 using m by (simp add: mult.commute)
  have "round_double ?x =
        of_int (round_half_even (?x / 2 powr of_int (q + 52 - 52))) * 2 powr of_int (q + 52 - 52)"
    by (rule round_double_pos [OF pos lo hi])
  then show ?thesis by (simp add: rhe_of_int)
qed

lemma round_double_form:
  assumes "0 < x"
  shows "\<exists>m q. 2 ^ 52 \<le> m \<and> m < 2 ^ 53 \<and> round_double x = of_int m * 2 powr of_int q"
proof -
  obtain E :: int where E: "2 powr of_int E \<le> x" "x < 2 powr (of_int E + 1)"
    using binade_exists [OF assms] by blast
  let ?s = "2 powr of_int (E - 52) :: real"
  let ?y = "x / ?s"
  have s: "0 < ?s" by simp
  have e1: "2 powr of_int E = ?s * (2::real) ^ 52"
    by (simp add: powr_diff)
  have e2: "2 powr (of_int E + 1) = ?s * (2::real) ^ 53"
    by (simp add: powr_diff powr_add)
  have ylo: "(2::real) ^ 52 \<le> ?y"
    using E(1) s unfolding e1 by (simp add: pos_le_divide_eq mult.commute)
  have yhi: "?y < (2::real) ^ 53"
    using E(2) s unfolding e2 by (simp add: pos_divide_less_eq mult.commute)
  let ?M = "round_half_even ?y"
  have rd: "round_double x = of_int ?M * ?s"
    by (rule round_double_pos [OF assms E])
  have Mlo: "2 ^ 52 \<le> ?M"
    by (rule rhe_ge) (use ylo in simp)
  have Mhi: "?M \<le> 2 ^ 53"
    by (rule rhe_le) (use yhi in simp)
  show ?thesis
  proof (cases "?M < 2 ^ 53")
    case True
    then show ?thesis using Mlo rd by blast
  next
    case False
    then have M: "?M = 2 ^ 53" using Mhi by simp
    have "round_double x = of_int (2 ^ 52) * 2 powr of_int (E - 51)"
      unfolding rd M by (simp add: powr_diff)
    moreover have "(2::int) ^ 52 \<le> 2 ^ 52" "(2::int) ^ 52 < 2 ^ 53" by simp_all
    ultimately show ?thesis by blast
  qed
qed

lemma round_double_idem:
  assumes "0 \<le> x"
  shows "round_double (round_double x) = round_double x"
proof (cases "x = 0")
  case True
  then show ?thesis by (simp add: round_double_def)
next
  case False
  then have "0 < x" using assms by simp
  then obtain m q where "2 ^ 52 \<le> m" "m < 2 ^ 53" "round_double x = of_int m * 2 powr of_int q"
    using round_double_form by blast
  then show ?thesis by (simp add: round_double_representable)
qed

lemma round_double_nonneg: "0 \<le> x \<Longrightarrow> 0 \<le> round_double x"
proof (cases "x = 0")
  case True
  then show ?thesis by (simp add: round_double_def)
next
  case False
  assume "0 \<le> x"
  then have "0 < x" using False by simp
  then obtain m q where "2 ^ 52 \<le> m" "round_double x = of_int m * 2 powr of_int q"
    using round_double_form by blast
  moreover have "(0::int) \<le> 2 ^ 52" by simp
  ultimately show ?thesis by (simp add: order_trans)
qed

lemma round_double_rel_err:
  assumes "0 < x"
  shows "\<bar>round_double x - x\<bar> \<le> x / 2 ^ 53"
proof -
  obtain E :: int where E: "2 powr of_int E \<le> x" "x < 2 powr (of_int E + 1)"
    using binade_exists [OF assms] by blast
  let ?s = "2 powr of_int (E - 52) :: real"
  let ?y = "x / ?s"
  have s: "0 < ?s" by simp
  have rd: "round_double x = of_int (round_half_even ?y) * ?s"
    by (rule round_double_pos [OF assms E])
  have "\<bar>round_double x - x\<bar> = \<bar>of_int (round_half_even ?y) - ?y\<bar> * ?s"
  proof -
    have "round_double x - x = (of_int (round_half_even ?y) - ?y) * ?s"
      unfolding rd using s by (simp add: algebra_simps)
    then show ?thesis using s by (simp add: abs_mult)
  qed
  also have "\<dots> \<le> 1 / 2 * ?s"
    by (rule mult_right_mono [OF rhe_err]) simp
  also have "\<dots> = 2 powr of_int E / 2 ^ 53"
    by (simp add: powr_diff)
  also have "\<dots> \<le> x / 2 ^ 53"
    using E(1) by (simp add: divide_right_mono)
  finally show ?thesis .
qed

subsection \<open>Sums and products of stored numbers\<close>

lemma round_double_0: "round_double 0 = 0"
  by (simp add: round_double_def)

lemma c128_mul_real:
  assumes "0 \<le> a" "0 \<le> b"
  shows "c128_mul (Complex a 0) (Complex b 0) = Complex (round_double (a * b)) 0"
  using assms by (simp add: c128_mul_def round_double_0 round_double_idem)

lemma c128_mul_zero: "c128_mul 0 z = 0" "c128_mul z 0 = 0"
  by (simp_all add: c128_mul_def round_double_0 complex_eq_iff)

lemma c128_add_zero_zero: "c128_add 0 0 = 0"
  by (simp add: c128_add_def round_double_0 complex_eq_iff)

lemma c128_add_zero:
  assumes "0 \<le> t"
  shows "c128_add 0 (Complex (round_double t) 0) = Complex (round_double t) 0"
    and "c128_add (Complex (round_double t) 0) 0 = Complex (round_double t) 0"
  using assms by (simp_all add: c128_add_def round_double_0 round_double_idem)

lemma foldl_c128_zeros:
  assumes "\<forall>k\<in>set ks. f k = 0" "c128_add a 0 = a"
  shows "foldl c128_add a (map f ks) = a"
  using assms by (induction ks) simp_all

lemma foldl_c128_single:
  assumes d: "distinct ks" and m: "m \<in> set ks"
    and z: "\<forall>k\<in>set ks. k \<noteq> m \<longrightarrow> f k = 0"
    and l: "c128_add 0 (f m) = f m" and r: "c128_add (f m) 0 = f m"
  shows "foldl c128_add 0 (map f ks) = f m"
proof -
  obtain xs ys where split: "ks = xs @ m # ys"
    using m by (meson split_list)
  have nx: "m \<notin> set xs" and ny: "m \<notin> set ys"
    using d split by auto
  have zx: "\<forall>k\<in>set xs. f k = 0" using z nx split by auto
  have zy: "\<forall>k\<in>set ys. f k = 0" using z ny split by auto
  have a: "foldl c128_add 0 (map f xs) = 0"
    by (rule foldl_c128_zeros [OF zx c128_add_zero_zero])
  have b: "foldl c128_add (f m) (map f ys) = f m"
    by (rule foldl_c128_zeros [OF zy r])
  show ?thesis
    unfolding split by (simp add: a l b)
qed

lemma loweringOp_c128_mat_of:
  assumes "0 < dimn s"
  shows "loweringOp_c128 s =
         mat_of (dimn s) (dimn s)
           (\<lambda>i j. if j = Suc i then Complex (round_double (sqrt (real j))) 0 else 0)"
proof -
  have n: "dimn s - 1 + nat \<bar>1\<bar> = dimn s" using assms by simp
  show ?thesis
    unfolding loweringOp_c128_def np_diag_def sqrt_arange_c128_def Let_def length_map length_upt n
    by (rule mat_of_cong) auto
qed

lemma raisingOp_c128_mat_of:
  assumes "0 < dimn s"
  shows "raisingOp_c128 s =
         mat_of (dimn s) (dimn s)
           (\<lambda>i j. if i = Suc j then Complex (round_double (sqrt (real i))) 0 else 0)"
proof -
  have n: "dimn s - 1 + nat \<bar>- 1\<bar> = dimn s" using assms by simp
  show ?thesis
    unfolding raisingOp_c128_def np_diag_def sqrt_arange_c128_def Let_def length_map length_upt n
    by (rule mat_of_cong) auto
qed

lemma raising_c128_is_adjoint:
  assumes "0 < dimn s"
  shows "raisingOp_c128 s = np_conj (np_transpose (loweringOp_c128 s))"
  unfolding loweringOp_c128_mat_of [OF assms] raisingOp_c128_mat_of [OF assms]
    np_transpose_mat_of np_conj_mat_of
  by (rule mat_of_cong) (auto simp: complex_eq_iff)

lemma raising_lowering_c128:
  assumes "0 < dimn s" "distinct ks" "set ks = {0..<dimn s}"
  shows "mat_mul_c128 ks (raisingOp_c128 s) (loweringOp_c128 s) =
         mat_of (dimn s) (dimn s)
           (\<lambda>i j. if i = j
                  then Complex (round_double (round_double (sqrt (real i)) * round_double (sqrt (real i)))) 0
                  else 0)"
proof -
  let ?d = "dimn s"
  let ?r = "\<lambda>i. round_double (sqrt (real i))"
  let ?R = "\<lambda>i j. if i = Suc j then Complex (?r i) 0 else 0"
  let ?L = "\<lambda>i j. if j = Suc i then Complex (?r j) 0 else 0"
  have r0: "0 \<le> ?r i" for i by (simp add: round_double_nonneg)
  have entry: "foldl c128_add 0
                 (map (\<lambda>k. c128_mul (mat_of ?d ?d ?R ! i ! k) (mat_of ?d ?d ?L ! k ! j)) ks) =
               (if i = j then Complex (round_double (?r i * ?r i)) 0 else 0)"
    if ij: "i < ?d" "j < ?d" for i j
  proof -
    have k: "k < ?d" if "k \<in> set ks" for k using that assms(3) by simp
    have terms: "map (\<lambda>k. c128_mul (mat_of ?d ?d ?R ! i ! k) (mat_of ?d ?d ?L ! k ! j)) ks =
                 map (\<lambda>k. c128_mul (?R i k) (?L k j)) ks"
      by (rule map_cong [OF refl]) (simp add: entry_mat_of k ij)
    show ?thesis
    proof (cases "i = j \<and> 0 < i")
      case True
      then obtain m where m: "i = Suc m" by (cases i) auto
      have mk: "m \<in> set ks" using assms(3) ij m by simp
      have val: "c128_mul (?R i m) (?L m j) = Complex (round_double (?r i * ?r i)) 0"
        using True m by (simp add: c128_mul_real r0)
      have nn: "0 \<le> ?r i * ?r i" using r0 by simp
      have "foldl c128_add 0 (map (\<lambda>k. c128_mul (?R i k) (?L k j)) ks) =
            c128_mul (?R i m) (?L m j)"
      proof (rule foldl_c128_single [OF assms(2) mk])
        show "\<forall>k\<in>set ks. k \<noteq> m \<longrightarrow> c128_mul (?R i k) (?L k j) = 0"
          using m by (auto simp: c128_mul_zero)
        show "c128_add 0 (c128_mul (?R i m) (?L m j)) = c128_mul (?R i m) (?L m j)"
          unfolding val by (rule c128_add_zero(1) [OF nn])
        show "c128_add (c128_mul (?R i m) (?L m j)) 0 = c128_mul (?R i m) (?L m j)"
          unfolding val by (rule c128_add_zero(2) [OF nn])
      qed
      then show ?thesis unfolding terms val using True by simp
    next
      case False
      have "foldl c128_add 0 (map (\<lambda>k. c128_mul (?R i k) (?L k j)) ks) = 0"
      proof (rule foldl_c128_zeros [OF _ c128_add_zero_zero])
        show "\<forall>k\<in>set ks. c128_mul (?R i k) (?L k j) = 0"
          using False by (auto simp: c128_mul_zero)
      qed
      moreover have "Complex (round_double (?r 0 * ?r 0)) 0 = 0"
        by (simp add: round_double_0 complex_eq_iff)
      ultimately show ?thesis unfolding terms using False by auto
    qed
  qed
  show ?thesis
    unfolding mat_mul_c128_def loweringOp_c128_mat_of [OF assms(1)] raisingOp_c128_mat_of [OF assms(1)]
      nrows_mat_of ncols_mat_of_sq
    by (rule mat_of_cong) (rule entry)
qed

subsection \<open>The stored square root of 2 and its square\<close>

lemma round_double_eqI:
  assumes "0 < x" "2 powr of_int E \<le> x" "x < 2 powr (of_int E + 1)"
    and "\<bar>x / 2 powr of_int (E - 52) - of_int m\<bar> < 1 / 2"
  shows "round_double x = of_int m * 2 powr of_int (E - 52)"
  unfolding round_double_pos [OF assms(1-3)] rhe_eqI [OF assms(4)] by (rule refl)

lemma round_double_1: "round_double 1 = 1"
  using round_double_representable [of "2 ^ 52" "- 52"] by (simp add: powr_minus)

lemma sqrt_2_bounds:
  "12738103345051545 / 2 ^ 53 < sqrt 2" "sqrt 2 < 12738103345051547 / 2 ^ 53"
proof -
  show "12738103345051545 / 2 ^ 53 < sqrt 2"
    by (rule real_less_rsqrt) (simp add: power2_eq_square)
  show "sqrt 2 < 12738103345051547 / 2 ^ 53"
    by (rule real_less_lsqrt) (simp_all add: power2_eq_square)
qed

lemma round_double_sqrt_2: "round_double (sqrt 2) = 6369051672525773 / 2 ^ 52"
proof -
  have lo: "2 powr of_int 0 \<le> sqrt 2" by simp
  have hi: "sqrt 2 < 2 powr (of_int 0 + 1)"
    using sqrt_2_bounds(2) by simp
  have near: "\<bar>sqrt 2 / 2 powr of_int (0 - 52) - of_int 6369051672525773\<bar> < 1 / 2"
  proof -
    have "12738103345051545 < sqrt 2 * 9007199254740992"
      "sqrt 2 * 9007199254740992 < 12738103345051547"
      using sqrt_2_bounds by (simp_all add: field_simps)
    then have "\<bar>sqrt 2 * 4503599627370496 - 6369051672525773\<bar> < 1 / 2"
      by linarith
    then show ?thesis by (simp add: powr_minus)
  qed
  have "round_double (sqrt 2) = of_int 6369051672525773 * 2 powr of_int (0 - 52)"
    by (rule round_double_eqI [OF _ lo hi near]) simp
  then show ?thesis by (simp add: powr_minus field_simps)
qed

lemma round_double_sqrt_2_squared:
  "round_double (6369051672525773 / 2 ^ 52 * (6369051672525773 / 2 ^ 52)) = 2 + 1 / 2 ^ 51"
proof -
  let ?x = "6369051672525773 / 2 ^ 52 * (6369051672525773 / 2 ^ 52) :: real"
  have pos: "0 < ?x" by simp
  have lo: "2 powr of_int 1 \<le> ?x" by simp
  have hi: "?x < 2 powr (of_int 1 + 1)" by simp
  have near: "\<bar>?x / 2 powr of_int (1 - 52) - of_int 4503599627370497\<bar> < 1 / 2"
    by (simp add: powr_minus abs_less_iff)
  have "round_double ?x = of_int 4503599627370497 * 2 powr of_int (1 - 52)"
    by (rule round_double_eqI [OF pos lo hi near])
  then show ?thesis by (simp add: powr_minus)
qed

subsection \<open>The product of the raising and the lowering operator\<close>

lemma rounded_square_err:
  "\<bar>round_double (round_double (sqrt (real k)) * round_double (sqrt (real k))) - real k\<bar>
     \<le> real k / 2 ^ 51"
proof (cases "k = 0")
  case True
  then show ?thesis by (simp add: round_double_0)
next
  case False
  define r where "r = sqrt (real k)"
  define u :: real where "u = 1 / 2 ^ 53"
  define a where "a = round_double r"
  define b where "b = round_double (a * a)"
  have r: "0 < r" using False by (simp add: r_def)
  have rr: "r * r = real k" by (simp add: r_def)
  have u: "0 < u" "u < 1" by (simp_all add: u_def)
  have h1: "\<bar>a - r\<bar> \<le> r * u"
    using round_double_rel_err [OF r] by (simp add: a_def u_def)
  have a_lo: "r * (1 - u) \<le> a" and a_hi: "a \<le> r * (1 + u)"
    using h1 by (simp_all add: algebra_simps abs_le_iff)
  have a_pos: "0 < a"
  proof -
    have "0 < r * (1 - u)" using r u by simp
    then show ?thesis using a_lo by linarith
  qed
  have h2: "\<bar>b - a * a\<bar> \<le> a * a * u"
    using round_double_rel_err [of "a * a"] a_pos by (simp add: b_def u_def)
  have aa: "a * a \<le> real k * (1 + u)\<^sup>2"
  proof -
    have "a * a \<le> (r * (1 + u)) * (r * (1 + u))"
      by (rule mult_mono [OF a_hi a_hi]) (use r u a_pos in simp_all)
    also have "\<dots> = (r * r) * (1 + u)\<^sup>2"
      by (simp add: power2_eq_square algebra_simps)
    finally show ?thesis by (simp add: rr)
  qed
  have d1: "\<bar>b - a * a\<bar> \<le> real k * (1 + u)\<^sup>2 * u"
  proof -
    have "a * a * u \<le> real k * (1 + u)\<^sup>2 * u"
      by (rule mult_right_mono [OF aa]) (use u in simp)
    then show ?thesis using h2 by linarith
  qed
  have d2: "\<bar>a * a - r * r\<bar> \<le> real k * (u * (2 + u))"
  proof -
    have "\<bar>a * a - r * r\<bar> = \<bar>a - r\<bar> * (a + r)"
    proof -
      have "a * a - r * r = (a - r) * (a + r)" by (simp add: algebra_simps)
      then show ?thesis using a_pos r by (simp add: abs_mult)
    qed
    also have "\<dots> \<le> (r * u) * (r * (2 + u))"
    proof (rule mult_mono [OF h1])
      show "a + r \<le> r * (2 + u)" using a_hi by (simp add: algebra_simps)
      show "0 \<le> r * u" using r u by simp
      show "0 \<le> a + r" using a_pos r by simp
    qed
    also have "\<dots> = (r * r) * (u * (2 + u))" by (simp add: algebra_simps)
    finally show ?thesis by (simp add: rr)
  qed
  have "\<bar>b - real k\<bar> \<le> \<bar>b - a * a\<bar> + \<bar>a * a - r * r\<bar>"
    unfolding rr [symmetric] by linarith
  also have "\<dots> \<le> real k * (1 + u)\<^sup>2 * u + real k * (u * (2 + u))"
    using d1 d2 by linarith
  also have "\<dots> = real k * ((1 + u)\<^sup>2 * u + u * (2 + u))"
    by (simp add: algebra_simps)
  also have "\<dots> \<le> real k * (1 / 2 ^ 51)"
  proof (rule mult_left_mono)
    show "(1 + u)\<^sup>2 * u + u * (2 + u) \<le> 1 / 2 ^ 51"
      by (simp add: u_def power2_eq_square)
    show "0 \<le> real k" by simp
  qed
  finally show ?thesis
    by (simp add: b_def a_def r_def)
qed

lemma rounded_square_small:
  "round_double (round_double (sqrt (real 0)) * round_double (sqrt (real 0))) = 0"
  "round_double (round_double (sqrt (real (Suc 0))) * round_double (sqrt (real (Suc 0)))) = 1"
  by (simp_all add: round_double_0 round_double_1)

lemma raising_lowering_c128_small:
  assumes "0 < dimn s" "dimn s \<le> 2" "distinct ks" "set ks = {0..<dimn s}"
  shows "mat_mul_c128 ks (raisingOp_c128 s) (loweringOp_c128 s) = numberOp s"
  unfolding raising_lowering_c128 [OF assms(1,3,4)] numberOp_mat_of
proof (rule mat_of_cong)
  fix i j assume "i < dimn s" "j < dimn s"
  then have "i = 0 \<or> i = Suc 0" using assms(2) by auto
  then show "(if i = j
              then Complex (round_double (round_double (sqrt (real i)) * round_double (sqrt (real i)))) 0
              else 0) = (if i = j then of_nat i else 0)"
    using rounded_square_small by (auto simp: complex_eq_iff)
qed

text \<open>
  Claim C8 as stated says that the product of \<open>raisingOp\<close> with \<open>loweringOp\<close> is \<open>numberOp\<close>
  exactly, for every dimension. The entries of the two operators are the square roots as
  stored: for \<open>sqrt 2\<close> the double \<open>6369051672525773 / 2\<^sup>5\<^sup>2\<close> (1.4142135623730951), whose
  square rounds to \<open>2 + 2\<^sup>-\<^sup>5\<^sup>1\<close> (2.0000000000000004). So at \<open>d = 3\<close> the entry \<open>(2, 2)\<close> of the
  product is not the entry 2 of \<open>numberOp\<close>.
\<close>

theorem ladder_product_counterexample:
  "mat_mul_c128 [0, 1, 2] (raisingOp_c128 \<lparr>dimn = 3, name = None, omega = 5, delta = - 1\<rparr>)
       (loweringOp_c128 \<lparr>dimn = 3, name = None, omega = 5, delta = - 1\<rparr>) =
     [[0, 0, 0], [0, 1, 0], [0, 0, Complex (2 + 1 / 2 ^ 51) 0]]
   \<and> numberOp \<lparr>dimn = 3, name = None, omega = 5, delta = - 1\<rparr> = [[0, 0, 0], [0, 1, 0], [0, 0, 2]]
   \<and> mat_mul_c128 [0, 1, 2] (raisingOp_c128 \<lparr>dimn = 3, name = None, omega = 5, delta = - 1\<rparr>)
       (loweringOp_c128 \<lparr>dimn = 3, name = None, omega = 5, delta = - 1\<rparr>) \<noteq>
     numberOp \<lparr>dimn = 3, name = None, omega = 5, delta = - 1\<rparr>"
proof -
  let ?q = "\<lparr>dimn = 3, name = None, omega = 5, delta = - 1\<rparr> :: SNO"
  have ks: "distinct [0, 1, 2::nat]" "set [0, 1, 2::nat] = {0..<dimn ?q}"
    by auto
  have pos: "0 < dimn ?q" by simp
  have two: "round_double (round_double (sqrt 2) * round_double (sqrt 2)) = 2 + 1 / 2 ^ 51"
    unfolding round_double_sqrt_2 by (rule round_double_sqrt_2_squared)
  have p: "mat_mul_c128 [0, 1, 2] (raisingOp_c128 ?q) (loweringOp_c128 ?q) =
           [[0, 0, 0], [0, 1, 0], [0, 0, Complex (2 + 1 / 2 ^ 51) 0]]"
    unfolding raising_lowering_c128 [OF pos ks]
    using two by (simp add: mat_of_def upt_0_3 round_double_0 round_double_1 complex_eq_iff)
  have n: "numberOp ?q = [[0, 0, 0], [0, 1, 0], [0, 0, 2]]"
    by (simp add: numberOp_mat_of mat_of_def upt_0_3)
  have "Complex (2 + 1 / 2 ^ 51) 0 \<noteq> 2"
    by (simp add: complex_eq_iff)
  then show ?thesis unfolding p n by simp
qed

text \<open>
  Claim C8, amended. For every oscillator of dimension \<open>d\<close> with \<open>1 \<le> d \<le> 2\<^sup>5\<^sup>3\<close>: \<open>raisingOp\<close> is
  the conjugate transpose of \<open>loweringOp\<close>, exactly; the product of \<open>raisingOp\<close> with
  \<open>loweringOp\<close>, computed in \<open>complex128\<close> with the terms of each sum in any order, is the
  diagonal matrix whose entry \<open>(k, k)\<close> is the rounded square of the rounded \<open>sqrt k\<close>; that entry
  differs from \<open>k\<close> by at most \<open>k / 2\<^sup>5\<^sup>1\<close>; and for \<open>d \<le> 2\<close> the product is \<open>numberOp\<close> exactly.
\<close>

theorem ladder_adjoint_number_rounded:
  assumes "0 < dimn s" "dimn s \<le> 2 ^ 53"
  shows "raisingOp_c128 s = np_conj (np_transpose (loweringOp_c128 s))
       \<and> (\<forall>ks. distinct ks \<and> set ks = {0..<dimn s} \<longrightarrow>
            mat_mul_c128 ks (raisingOp_c128 s) (loweringOp_c128 s) =
              mat_of (dimn s) (dimn s)
                (\<lambda>i j. if i = j
                       then Complex (round_double (round_double (sqrt (real i)) *
                                                   round_double (sqrt (real i)))) 0
                       else 0))
       \<and> (\<forall>k<dimn s.
            \<bar>round_double (round_double (sqrt (real k)) * round_double (sqrt (real k))) - real k\<bar>
              \<le> real k / 2 ^ 51)
       \<and> (dimn s \<le> 2 \<longrightarrow>
            (\<forall>ks. distinct ks \<and> set ks = {0..<dimn s} \<longrightarrow>
               mat_mul_c128 ks (raisingOp_c128 s) (loweringOp_c128 s) = numberOp s))"
  using raising_c128_is_adjoint [OF assms(1)] raising_lowering_c128 [OF assms(1)]
    rounded_square_err raising_lowering_c128_small [OF assms(1)]
  by blast

text \<open>
  At \<open>d = 3\<close>, with the terms summed in the order 2, 0, 1, and at \<open>d = 2\<close>, in the order 1, 0.
\<close>

theorem ladder_adjoint_number_rounded_witness:
  "raisingOp_c128 \<lparr>dimn = 3, name = None, omega = 5, delta = - 1\<rparr> =
     np_conj (np_transpose (loweringOp_c128 \<lparr>dimn = 3, name = None, omega = 5, delta = - 1\<rparr>))
   \<and> mat_mul_c128 [2, 0, 1] (raisingOp_c128 \<lparr>dimn = 3, name = None, omega = 5, delta = - 1\<rparr>)
        (loweringOp_c128 \<lparr>dimn = 3, name = None, omega = 5, delta = - 1\<rparr>) =
      [[0, 0, 0], [0, 1, 0], [0, 0, Complex (2 + 1 / 2 ^ 51) 0]]
   \<and> \<bar>(2 + 1 / 2 ^ 51) - real 2\<bar> \<le> real 2 / 2 ^ 51
   \<and> mat_mul_c128 [1, 0] (raisingOp_c128 \<lparr>dimn = 2, name = None, omega = 5, delta = - 1\<rparr>)
        (loweringOp_c128 \<lparr>dimn = 2, name = None, omega = 5, delta = - 1\<rparr>) =
      [[0, 0], [0, 1]]
   \<and> numberOp \<lparr>dimn = 2, name = None, omega = 5, delta = - 1\<rparr> = [[0, 0], [0, 1]]"
proof -
  let ?q = "\<lparr>dimn = 3, name = None, omega = 5, delta = - 1\<rparr> :: SNO"
  let ?q2 = "\<lparr>dimn = 2, name = None, omega = 5, delta = - 1\<rparr> :: SNO"
  have hyp: "0 < dimn ?q" "dimn ?q \<le> 2 ^ 53" "0 < dimn ?q2" "dimn ?q2 \<le> 2 ^ 53" "dimn ?q2 \<le> 2"
    by simp_all
  have ks: "distinct [2, 0, 1::nat] \<and> set [2, 0, 1::nat] = {0..<dimn ?q}"
    by auto
  have ks2: "distinct [1, 0::nat] \<and> set [1, 0::nat] = {0..<dimn ?q2}"
    by auto
  have two: "round_double (round_double (sqrt 2) * round_double (sqrt 2)) = 2 + 1 / 2 ^ 51"
    unfolding round_double_sqrt_2 by (rule round_double_sqrt_2_squared)
  note h = ladder_adjoint_number_rounded [OF hyp(1,2)]
  note h2 = ladder_adjoint_number_rounded [OF hyp(3,4)]
  from h have a: "raisingOp_c128 ?q = np_conj (np_transpose (loweringOp_c128 ?q))"
    by blast
  from h ks have "mat_mul_c128 [2, 0, 1] (raisingOp_c128 ?q) (loweringOp_c128 ?q) =
      mat_of (dimn ?q) (dimn ?q)
        (\<lambda>i j. if i = j
               then Complex (round_double (round_double (sqrt (real i)) * round_double (sqrt (real i)))) 0
               else 0)"
    by blast
  then have b: "mat_mul_c128 [2, 0, 1] (raisingOp_c128 ?q) (loweringOp_c128 ?q) =
      [[0, 0, 0], [0, 1, 0], [0, 0, Complex (2 + 1 / 2 ^ 51) 0]]"
    using two by (simp add: mat_of_def upt_0_3 round_double_0 round_double_1 complex_eq_iff)
  from h have bd: "\<forall>k<dimn ?q.
      \<bar>round_double (round_double (sqrt (real k)) * round_double (sqrt (real k))) - real k\<bar>
        \<le> real k / 2 ^ 51"
    by blast
  have "2 < dimn ?q" by simp
  with bd have "\<bar>round_double (round_double (sqrt (real 2)) * round_double (sqrt (real 2))) - real 2\<bar>
      \<le> real 2 / 2 ^ 51"
    by blast
  then have c: "\<bar>(2 + 1 / 2 ^ 51) - real 2\<bar> \<le> real 2 / 2 ^ 51"
    using two by simp
  from h2 hyp(5) ks2 have "mat_mul_c128 [1, 0] (raisingOp_c128 ?q2) (loweringOp_c128 ?q2) = numberOp ?q2"
    by blast
  moreover have n: "numberOp ?q2 = [[0, 0], [0, 1]]"
    by (simp add: numberOp_mat_of mat_of_def upt_0_2)
  ultimately have d: "mat_mul_c128 [1, 0] (raisingOp_c128 ?q2) (loweringOp_c128 ?q2) = [[0, 0], [0, 1]]"
    by simp
  from a b c d n show ?thesis by blast
qed

section \<open>The Pauli operators of a qubit\<close>

lemma set_two_mat_of:
  assumes "r < m" "c < n" "r' < m" "c' < n"
  shows "set_two (mat_of m n f) (int r) (int c) v (int r') (int c') v' =
         Inr (mat_of m n (\<lambda>i j. if i = r' \<and> j = c' then v'
                                 else if i = r \<and> j = c then v else f i j))"
  using assms by (simp add: set_two_def set_item_mat_of)

lemma pauliZ_mat_of:
  assumes "1 < dimn s"
  shows "pauliZ s =
         Inr (mat_of (dimn s) (dimn s)
               (\<lambda>i j. if i = 1 \<and> j = 1 then - 1 else if i = 0 \<and> j = 0 then 1 else 0))"
proof -
  have "0 < dimn s" using assms by simp
  from set_two_mat_of [OF this this assms assms, of "\<lambda>i j. 0" 1 "- 1"] assms
  show ?thesis by (simp add: pauliZ_def zeros_def np_zeros_mat_of)
qed

lemma pauliX_mat_of:
  assumes "1 < dimn s"
  shows "pauliX s =
         Inr (mat_of (dimn s) (dimn s)
               (\<lambda>i j. if i = 1 \<and> j = 0 then 1 else if i = 0 \<and> j = 1 then 1 else 0))"
proof -
  have "0 < dimn s" using assms by simp
  from set_two_mat_of [OF this assms assms this, of "\<lambda>i j. 0" 1 1] assms
  show ?thesis by (simp add: pauliX_def zeros_def np_zeros_mat_of)
qed

lemma pauliY_mat_of:
  assumes "1 < dimn s"
  shows "pauliY s =
         Inr (mat_of (dimn s) (dimn s)
               (\<lambda>i j. if i = 1 \<and> j = 0 then \<i> else if i = 0 \<and> j = 1 then - \<i> else 0))"
proof -
  have "0 < dimn s" using assms by simp
  from set_two_mat_of [OF this assms assms this, of "\<lambda>i j. 0" "- \<i>" \<i>] assms
  show ?thesis by (simp add: pauliY_def zeros_def np_zeros_mat_of)
qed

lemma sum_list_two:
  fixes h :: "nat \<Rightarrow> complex"
  assumes "1 < n" "\<And>k. 2 \<le> k \<Longrightarrow> h k = 0"
  shows "sum_list (map h [0..<n]) = h 0 + h 1"
proof -
  have "[0..<n] = [0..<2] @ [2..<n]"
    using assms(1) by (metis Suc_1 Suc_leI upt_add_eq_append add.left_neutral le_add_diff_inverse zero_le)
  moreover have "sum_list (map h [2..<n]) = 0"
    using assms(2) by (simp add: sum_list_0 interv_sum_list_conv_sum_set_nat)
  ultimately show ?thesis by (simp add: upt_0_2)
qed

lemma dot_two_level:
  fixes f g h :: "nat \<Rightarrow> nat \<Rightarrow> complex"
  assumes "1 < d" "\<And>i k. 2 \<le> k \<Longrightarrow> f i k = 0"
    and "\<And>i j. i < d \<Longrightarrow> j < d \<Longrightarrow> f i 0 * g 0 j + f i 1 * g 1 j = h i j"
  shows "np_dot (mat_of d d f) (mat_of d d g) = Inr (mat_of d d h)"
proof -
  have "sum_list (map (\<lambda>k. f i k * g k j) [0..<d]) = f i 0 * g 0 j + f i 1 * g 1 j" for i j
    by (rule sum_list_two) (use assms(1,2) in auto)
  then have "np_dot (mat_of d d f) (mat_of d d g) =
             Inr (mat_of d d (\<lambda>i j. f i 0 * g 0 j + f i 1 * g 1 j))"
    by (simp add: np_dot_mat_of)
  also have "mat_of d d (\<lambda>i j. f i 0 * g 0 j + f i 1 * g 1 j) = mat_of d d h"
    by (rule mat_of_cong) (rule assms(3))
  finally show ?thesis .
qed

text \<open>
  Claim C9. For every qubit of dimension \<open>d \<ge> 2\<close> the three Pauli operators are returned
  (the assertion holds), the matrix products \<open>X \<cdot> X\<close>, \<open>Y \<cdot> Y\<close> and \<open>Z \<cdot> Z\<close> are the identity
  of the lowest two levels, \<open>diag(1, 1, 0, \<dots>, 0)\<close>, and \<open>X \<cdot> Y = \<i> Z\<close>.
\<close>

theorem pauli_algebra:
  assumes "1 < dimn s"
  shows "\<exists>X Y Z. pauliX s = Inr X \<and> pauliY s = Inr Y \<and> pauliZ s = Inr Z
           \<and> np_dot X X = Inr (qubit_identity (dimn s))
           \<and> np_dot Y Y = Inr (qubit_identity (dimn s))
           \<and> np_dot Z Z = Inr (qubit_identity (dimn s))
           \<and> np_dot X Y = Inr (np_scale \<i> Z)"
proof -
  let ?d = "dimn s"
  let ?X = "\<lambda>i j::nat. if i = 1 \<and> j = 0 then 1 else if i = 0 \<and> j = 1 then 1 else (0::complex)"
  let ?Y = "\<lambda>i j::nat. if i = 1 \<and> j = 0 then \<i> else if i = 0 \<and> j = 1 then - \<i> else (0::complex)"
  let ?Z = "\<lambda>i j::nat. if i = 1 \<and> j = 1 then - 1 else if i = 0 \<and> j = 0 then 1 else (0::complex)"
  have xx: "np_dot (mat_of ?d ?d ?X) (mat_of ?d ?d ?X) = Inr (qubit_identity ?d)"
    unfolding qubit_identity_def by (rule dot_two_level [OF assms]) auto
  have yy: "np_dot (mat_of ?d ?d ?Y) (mat_of ?d ?d ?Y) = Inr (qubit_identity ?d)"
    unfolding qubit_identity_def by (rule dot_two_level [OF assms]) auto
  have zz: "np_dot (mat_of ?d ?d ?Z) (mat_of ?d ?d ?Z) = Inr (qubit_identity ?d)"
    unfolding qubit_identity_def by (rule dot_two_level [OF assms]) auto
  have xy: "np_dot (mat_of ?d ?d ?X) (mat_of ?d ?d ?Y) = Inr (np_scale \<i> (mat_of ?d ?d ?Z))"
    unfolding np_scale_mat_of by (rule dot_two_level [OF assms]) auto
  show ?thesis
    unfolding pauliX_mat_of [OF assms] pauliY_mat_of [OF assms] pauliZ_mat_of [OF assms]
    using xx yy zz xy by blast
qed

text \<open>The same at \<open>d = 3\<close>.\<close>

theorem pauli_algebra_witness:
  "\<exists>X Y Z. pauliX \<lparr>dimn = 3, name = None, omega = 5, delta = - 1, T1 = None, T2 = None\<rparr> = Inr X
     \<and> pauliY \<lparr>dimn = 3, name = None, omega = 5, delta = - 1, T1 = None, T2 = None\<rparr> = Inr Y
     \<and> pauliZ \<lparr>dimn = 3, name = None, omega = 5, delta = - 1, T1 = None, T2 = None\<rparr> = Inr Z
     \<and> np_dot X X = Inr [[1, 0, 0], [0, 1, 0], [0, 0, 0]]
     \<and> np_dot Y Y = Inr [[1, 0, 0], [0, 1, 0], [0, 0, 0]]
     \<and> np_dot Z Z = Inr [[1, 0, 0], [0, 1, 0], [0, 0, 0]]
     \<and> np_dot X Y = Inr (np_scale \<i> Z)"
  using pauli_algebra [of "\<lparr>dimn = 3, name = None, omega = 5, delta = - 1, T1 = None, T2 = None\<rparr>"]
  by (simp add: qubit_identity_def mat_of_def upt_0_3)

section \<open>The superoperator of a dissipator\<close>

lemma superOpColStack_mat_of:
  "superOpColStack (Dissipator_init (mat_of d d f)) =
   Inr (mat_of (d * d) (d * d)
     (\<lambda>i j. cnj (f (i div d) (j div d)) * f (i mod d) (j mod d)
        - 1 / 2 * ((if i div d = j div d then 1 else 0)
                     * sum_list (map (\<lambda>k. cnj (f k (i mod d)) * f k (j mod d)) [0..<d]))
        - 1 / 2 * (sum_list (map (\<lambda>k. f k (i div d) * cnj (f k (j div d))) [0..<d])
                     * (if i mod d = j mod d then 1 else 0))))"
  by (simp add: superOpColStack_def Dissipator_init_def Let_def ebind_def nrows_mat_of
      np_conj_mat_of np_transpose_mat_of np_dot_mat_of np_eye_mat_of np_kron_mat_of
      np_scale_mat_of np_sub_mat_of)

lemma superOpColStack_ops_mat_of:
  "superOpColStack (Dissipator_init (mat_of d d f)) =
   Inr (mat_sub
         (mat_sub (np_kron (np_conj (mat_of d d f)) (mat_of d d f))
            (np_scale (1 / 2)
               (np_kron (np_eye d) (mat_mul (np_transpose (np_conj (mat_of d d f))) (mat_of d d f)))))
         (np_scale (1 / 2)
            (np_kron (mat_mul (np_transpose (mat_of d d f)) (np_conj (mat_of d d f))) (np_eye d))))"
  by (simp add: superOpColStack_mat_of
      np_conj_mat_of np_transpose_mat_of mat_mul_mat_of np_eye_mat_of np_kron_mat_of
      np_scale_mat_of mat_sub_mat_of)

text \<open>
  Claim C7. For every dissipator whose Lindblad matrix \<open>L\<close> is a \<open>d \<times> d\<close> complex matrix,
  \<open>superOpColStack\<close> returns (without raising)
  \<open>conj(L) \<otimes> L - 0.5 (I \<otimes> L\<^sup>\<dagger>L) - 0.5 ((L\<^sup>T conj(L)) \<otimes> I)\<close>, with \<open>I\<close> the \<open>d \<times> d\<close> identity. The
  second conjunct gives the entries of that \<open>d\<^sup>2 \<times> d\<^sup>2\<close> matrix.
\<close>

theorem superOpColStack_formula:
  assumes "length L = d" "\<forall>r\<in>set L. length r = d"
  shows "superOpColStack (Dissipator_init L) =
           Inr (mat_sub
                 (mat_sub (np_kron (np_conj L) L)
                    (np_scale (1 / 2) (np_kron (np_eye d) (mat_mul (np_transpose (np_conj L)) L))))
                 (np_scale (1 / 2) (np_kron (mat_mul (np_transpose L) (np_conj L)) (np_eye d))))
       \<and> superOpColStack (Dissipator_init L) =
           Inr (mat_of (d * d) (d * d)
             (\<lambda>i j. cnj (L ! (i div d) ! (j div d)) * L ! (i mod d) ! (j mod d)
                - 1 / 2 * ((if i div d = j div d then 1 else 0)
                     * (\<Sum>k<d. cnj (L ! k ! (i mod d)) * L ! k ! (j mod d)))
                - 1 / 2 * ((\<Sum>k<d. L ! k ! (i div d) * cnj (L ! k ! (j div d)))
                     * (if i mod d = j mod d then 1 else 0))))"
proof -
  let ?f = "\<lambda>i j. L ! i ! j"
  have L: "L = mat_of d d ?f"
    by (rule square_mat_of [OF assms])
  have a: "superOpColStack (Dissipator_init L) =
           Inr (mat_sub
                 (mat_sub (np_kron (np_conj L) L)
                    (np_scale (1 / 2) (np_kron (np_eye d) (mat_mul (np_transpose (np_conj L)) L))))
                 (np_scale (1 / 2) (np_kron (mat_mul (np_transpose L) (np_conj L)) (np_eye d))))"
    using superOpColStack_ops_mat_of [of d ?f] unfolding L [symmetric] .
  have b: "superOpColStack (Dissipator_init L) =
           Inr (mat_of (d * d) (d * d)
             (\<lambda>i j. cnj (L ! (i div d) ! (j div d)) * L ! (i mod d) ! (j mod d)
                - 1 / 2 * ((if i div d = j div d then 1 else 0)
                     * (\<Sum>k<d. cnj (L ! k ! (i mod d)) * L ! k ! (j mod d)))
                - 1 / 2 * ((\<Sum>k<d. L ! k ! (i div d) * cnj (L ! k ! (j div d)))
                     * (if i mod d = j mod d then 1 else 0))))"
    using superOpColStack_mat_of [of d ?f] unfolding L [symmetric] sum_list_upt .
  from a b show ?thesis by (rule conjI)
qed

text \<open>The superoperator of the lowering operator of a two-level system.\<close>

theorem superOpColStack_formula_witness:
  "superOpColStack (Dissipator_init [[0, 1], [0, 0]]) =
     Inr [[0, 0, 0, 1], [0, - 1 / 2, 0, 0], [0, 0, - 1 / 2, 0], [0, 0, 0, - 1]]"
proof -
  have sq: "length [[0, 1], [0, 0 :: complex]] = 2" "\<forall>r\<in>set [[0, 1], [0, 0 :: complex]]. length r = 2"
    by simp_all
  have two: "{..<2::nat} = {0, 1}" by auto
  from superOpColStack_formula [OF sq, THEN conjunct2]
  show ?thesis by (simp add: mat_of_def upt_0_4 two)
qed

section \<open>Adding Hamiltonians\<close>

lemma np_add_fails_iff:
  assumes "nrows A = m" "ncols A = m" "nrows B = n" "ncols B = n" "m \<noteq> n"
  shows "(\<exists>e. np_add A B = Inl e) \<longleftrightarrow> m \<noteq> 1 \<and> n \<noteq> 1"
    and "m \<noteq> 1 \<and> n \<noteq> 1 \<Longrightarrow> np_add A B = Inl ValueError"
  using assms by (auto simp: np_add_def bcast_dim_def)

lemma np_add_broadcast_right:
  assumes "nrows A = m" "ncols A = m" "nrows B = 1" "ncols B = 1" "m \<noteq> 1"
  shows "np_add A B = Inr (mat_of m m (\<lambda>i j. A ! i ! j + B ! 0 ! 0))"
  using assms by (simp add: np_add_def bcast_dim_def bcast_entry_def)

lemma np_iadd_fails_iff:
  assumes "nrows A = m" "ncols A = m" "nrows B = n" "ncols B = n" "m \<noteq> n"
  shows "(\<exists>e. np_iadd A B = Inl e) \<longleftrightarrow> n \<noteq> 1"
    and "n \<noteq> 1 \<Longrightarrow> np_iadd A B = Inl ValueError"
  using assms
  by (auto simp: np_iadd_def ebind_def np_add_def bcast_dim_def nrows_mat_of ncols_mat_of)

lemma np_iadd_broadcast_right:
  assumes "nrows A = m" "ncols A = m" "nrows B = 1" "ncols B = 1" "m \<noteq> 1"
  shows "np_iadd A B = Inr (mat_of m m (\<lambda>i j. A ! i ! j + B ! 0 ! 0))"
  using assms
  by (auto simp: np_iadd_def ebind_def np_add_broadcast_right [OF assms] nrows_mat_of ncols_mat_of)

text \<open>
  Claim C4 as stated says that every pair of different dimensions fails. A \<open>2 \<times> 2\<close>
  Hamiltonian plus a \<open>1 \<times> 1\<close> Hamiltonian, a \<open>1 \<times> 1\<close> raw matrix or a scalar does not fail:
  the operand is broadcast.
\<close>

theorem add_mismatch_counterexample:
  "Hamiltonian_add (Hamiltonian_init [[1, 2], [3, 4]]) (OHam (Hamiltonian_init [[10]])) =
     Inr (Hamiltonian_init [[11, 12], [13, 14]])
   \<and> Hamiltonian_iadd (Hamiltonian_init [[1, 2], [3, 4]]) (OHam (Hamiltonian_init [[10]])) =
     Inr (Hamiltonian_init [[11, 12], [13, 14]])
   \<and> Hamiltonian_add (Hamiltonian_init [[1, 2], [3, 4]]) (ORaw [[10]]) =
     Inr (Hamiltonian_init [[11, 12], [13, 14]])
   \<and> Hamiltonian_add (Hamiltonian_init [[1, 2], [3, 4]]) (OScalar 10) =
     Inr (Hamiltonian_init [[11, 12], [13, 14]])"
  by (simp add: Hamiltonian_add_def Hamiltonian_iadd_def Hamiltonian_init_def ebind_def
      np_add_def np_iadd_def np_add_scalar_def bcast_dim_def bcast_entry_def nrows_def ncols_def
      mat_of_def upt_0_2)

text \<open>
  Claim C4, amended. Let the left Hamiltonian hold an \<open>m \<times> m\<close> matrix and the right operand
  (a Hamiltonian, or a raw matrix) an \<open>n \<times> n\<close> matrix \<open>B\<close> with \<open>m \<noteq> n\<close>. Then \<open>__add__\<close> fails
  exactly when neither \<open>m\<close> nor \<open>n\<close> is 1, and \<open>__iadd__\<close> exactly when \<open>n\<close> is not 1; the
  failure is numpy's \<open>ValueError\<close>. When \<open>n = 1\<close> nothing fails: the single entry of \<open>B\<close> is
  added to every entry of the left matrix. A scalar operand is added to every entry and never
  fails.
\<close>

theorem add_mismatch:
  assumes "nrows (ham_matrix H) = m" "ncols (ham_matrix H) = m"
    and "nrows B = n" "ncols B = n" "m \<noteq> n"
    and "other = OHam G \<and> ham_matrix G = B \<or> other = ORaw B"
  shows "((\<exists>e. Hamiltonian_add H other = Inl e) \<longleftrightarrow> m \<noteq> 1 \<and> n \<noteq> 1)
       \<and> ((\<exists>e. Hamiltonian_iadd H other = Inl e) \<longleftrightarrow> n \<noteq> 1)
       \<and> (m \<noteq> 1 \<and> n \<noteq> 1 \<longrightarrow> Hamiltonian_add H other = Inl ValueError)
       \<and> (n \<noteq> 1 \<longrightarrow> Hamiltonian_iadd H other = Inl ValueError)
       \<and> (n = 1 \<longrightarrow>
            Hamiltonian_add H other =
              Inr (Hamiltonian_init (mat_of m m (\<lambda>i j. ham_matrix H ! i ! j + B ! 0 ! 0)))
          \<and> Hamiltonian_iadd H other =
              Inr (H\<lparr>ham_matrix := mat_of m m (\<lambda>i j. ham_matrix H ! i ! j + B ! 0 ! 0)\<rparr>))
       \<and> Hamiltonian_add H (OScalar c) = Inr (Hamiltonian_init (np_add_scalar (ham_matrix H) c))
       \<and> Hamiltonian_iadd H (OScalar c) = Inr (H\<lparr>ham_matrix := np_add_scalar (ham_matrix H) c\<rparr>)"
proof -
  let ?A = "ham_matrix H"
  note sh = assms(1-5)
  have add: "Hamiltonian_add H other = ebind (np_add ?A B) (\<lambda>M. Inr (Hamiltonian_init M))"
    using assms(6) by (auto simp: Hamiltonian_add_def)
  have iadd: "Hamiltonian_iadd H other = ebind (np_iadd ?A B) (\<lambda>M. Inr (H\<lparr>ham_matrix := M\<rparr>))"
    using assms(6) by (auto simp: Hamiltonian_iadd_def)
  have e1: "(\<exists>e. ebind x f = Inl e) \<longleftrightarrow> (\<exists>e. x = Inl e)" if "\<And>y. \<exists>z. f y = Inr z"
    for x :: "error + matrix" and f :: "matrix \<Rightarrow> error + Hamiltonian"
    using that by (cases x) (auto simp: ebind_def, metis Inl_Inr_False)
  have c1: "(\<exists>e. Hamiltonian_add H other = Inl e) \<longleftrightarrow> m \<noteq> 1 \<and> n \<noteq> 1"
    unfolding add using np_add_fails_iff(1) [OF sh] by (subst e1) auto
  have c2: "(\<exists>e. Hamiltonian_iadd H other = Inl e) \<longleftrightarrow> n \<noteq> 1"
    unfolding iadd using np_iadd_fails_iff(1) [OF sh] by (subst e1) auto
  have c3: "m \<noteq> 1 \<and> n \<noteq> 1 \<longrightarrow> Hamiltonian_add H other = Inl ValueError"
    unfolding add using np_add_fails_iff(2) [OF sh] by (simp add: ebind_def)
  have c4: "n \<noteq> 1 \<longrightarrow> Hamiltonian_iadd H other = Inl ValueError"
    unfolding iadd using np_iadd_fails_iff(2) [OF sh] by (simp add: ebind_def)
  have c5: "n = 1 \<longrightarrow>
            Hamiltonian_add H other =
              Inr (Hamiltonian_init (mat_of m m (\<lambda>i j. ham_matrix H ! i ! j + B ! 0 ! 0)))
          \<and> Hamiltonian_iadd H other =
              Inr (H\<lparr>ham_matrix := mat_of m m (\<lambda>i j. ham_matrix H ! i ! j + B ! 0 ! 0)\<rparr>)"
  proof
    assume n: "n = 1"
    then have m: "m \<noteq> 1" using sh by simp
    have b: "nrows B = 1" "ncols B = 1" using sh n by simp_all
    show "Hamiltonian_add H other =
              Inr (Hamiltonian_init (mat_of m m (\<lambda>i j. ham_matrix H ! i ! j + B ! 0 ! 0)))
          \<and> Hamiltonian_iadd H other =
              Inr (H\<lparr>ham_matrix := mat_of m m (\<lambda>i j. ham_matrix H ! i ! j + B ! 0 ! 0)\<rparr>)"
      unfolding add iadd
      by (simp add: ebind_def np_add_broadcast_right [OF sh(1,2) b m]
          np_iadd_broadcast_right [OF sh(1,2) b m])
  qed
  have c6: "Hamiltonian_add H (OScalar c) = Inr (Hamiltonian_init (np_add_scalar (ham_matrix H) c))"
    by (simp add: Hamiltonian_add_def)
  have c7: "Hamiltonian_iadd H (OScalar c) = Inr (H\<lparr>ham_matrix := np_add_scalar (ham_matrix H) c\<rparr>)"
    by (simp add: Hamiltonian_iadd_def)
  from c1 c2 c3 c4 c5 c6 c7 show ?thesis by blast
qed

text \<open>A \<open>2 \<times> 2\<close> Hamiltonian and a \<open>3 \<times> 3\<close> raw matrix: both operations fail.\<close>

theorem add_mismatch_witness:
  "Hamiltonian_add (Hamiltonian_init [[1, 2], [3, 4]]) (ORaw [[1, 2, 3], [4, 5, 6], [7, 8, 9]]) =
     Inl ValueError
   \<and> Hamiltonian_iadd (Hamiltonian_init [[1, 2], [3, 4]]) (ORaw [[1, 2, 3], [4, 5, 6], [7, 8, 9]]) =
     Inl ValueError"
proof -
  let ?H = "Hamiltonian_init [[1, 2], [3, 4]]"
  let ?B = "[[1, 2, 3], [4, 5, 6], [7, 8, 9]] :: matrix"
  have h: "nrows (ham_matrix ?H) = 2" "ncols (ham_matrix ?H) = 2" "nrows ?B = 3" "ncols ?B = 3"
    "(2::nat) \<noteq> 3" "ORaw ?B = OHam ?H \<and> ham_matrix ?H = ?B \<or> ORaw ?B = ORaw ?B"
    by (simp_all add: Hamiltonian_init_def nrows_def ncols_def)
  from add_mismatch [OF h] show ?thesis by simp
qed

section \<open>Building an interaction\<close>

lemma ladder_sizes:
  "nrows (loweringOp s) = dimn s - 1 + 1" "ncols (loweringOp s) = dimn s - 1 + 1"
  "nrows (raisingOp s) = dimn s - 1 + 1" "ncols (raisingOp s) = dimn s - 1 + 1"
  by (simp_all add: loweringOp_def raisingOp_def np_diag_def np_arange_def nrows_mat_of ncols_mat_of)

lemma np_kron_shape:
  "nrows (np_kron A B) = nrows A * nrows B"
  "ncols (np_kron A B) = (if nrows A * nrows B = 0 then 0 else ncols A * ncols B)"
  by (simp_all add: np_kron_def nrows_mat_of ncols_mat_of)

lemma np_add_same_shape:
  assumes "nrows A = m" "ncols A = n" "nrows B = m" "ncols B = n" "0 < m"
  shows "np_add A B = Inr (mat_add A B)"
proof -
  have "mat_of m n (\<lambda>i j. bcast_entry A i j + bcast_entry B i j) =
        mat_of m n (\<lambda>i j. A ! i ! j + B ! i ! j)"
    by (rule mat_of_cong) (use assms in \<open>auto simp: bcast_entry_def\<close>)
  then show ?thesis
    using assms by (simp add: np_add_def bcast_dim_same mat_add_def)
qed

lemma flipflop_sum:
  "np_add (np_kron (loweringOp s1) (raisingOp s2)) (np_kron (raisingOp s1) (loweringOp s2)) =
   Inr (mat_add (np_kron (loweringOp s1) (raisingOp s2)) (np_kron (raisingOp s1) (loweringOp s2)))"
  by (rule np_add_same_shape
        [where m = "(dimn s1 - 1 + 1) * (dimn s2 - 1 + 1)" and n = "(dimn s1 - 1 + 1) * (dimn s2 - 1 + 1)"])
     (simp_all add: np_kron_shape ladder_sizes)

lemma pauliZ_fails: "\<not> 1 < dimn s \<Longrightarrow> pauliZ s = Inl AssertionError"
  by (simp add: pauliZ_def)

text \<open>
  Claim C6 as stated says that the kind \<open>ZZ\<close> sets the matrix, for any two systems. \<open>pauliZ\<close>
  asserts that its system has at least two levels, so with a system of one level, or of no
  level (the default \<open>numLevels = 0\<close>), the kind \<open>ZZ\<close> raises \<open>AssertionError\<close> and no matrix is
  set.
\<close>

theorem createMat_one_level_counterexample:
  "createMat \<lparr>system1 = \<lparr>dimn = 2, name = None, omega = 5, delta = - 1, T1 = None, T2 = None\<rparr>,
             system2 = \<lparr>dimn = 1, name = None, omega = 6, delta = 0, T1 = None, T2 = None\<rparr>,
             interactionType = ''ZZ'', interactionStrength = 4, int_matrix = None\<rparr> =
     Inl AssertionError
   \<and> createMat \<lparr>system1 = \<lparr>dimn = 0, name = None, omega = 0, delta = 0, T1 = None, T2 = None\<rparr>,
             system2 = \<lparr>dimn = 0, name = None, omega = 0, delta = 0, T1 = None, T2 = None\<rparr>,
             interactionType = ''ZZ'', interactionStrength = 4, int_matrix = None\<rparr> =
     Inl AssertionError"
  by (simp add: createMat_def ebind_def pauliZ_mat_of pauliZ_fails)

text \<open>
  Claim C6, amended. With kind \<open>ZZ\<close> and two systems of dimensions \<open>d\<^sub>A, d\<^sub>B \<ge> 2\<close>, \<open>createMat\<close> sets
  the matrix to \<open>0.25 * strength * (pauliZ\<^sub>A \<otimes> pauliZ\<^sub>B)\<close>, where \<open>pauliZ\<close> of a system of dimension
  \<open>d\<close> is the \<open>d \<times> d\<close> matrix with \<open>1\<close> at \<open>(0, 0)\<close>, \<open>-1\<close> at \<open>(1, 1)\<close> and \<open>0\<close> elsewhere. With kind
  \<open>ZZ\<close> and a system of dimension below 2 it raises \<open>AssertionError\<close> and sets no matrix. With kind
  \<open>FlipFlop\<close> it sets the matrix to
  \<open>strength * (loweringOp\<^sub>A \<otimes> raisingOp\<^sub>B + raisingOp\<^sub>A \<otimes> loweringOp\<^sub>B)\<close>, for systems of any
  dimension. With any other kind it raises \<open>NameError\<close> (unknown interaction type) and sets no
  matrix.
\<close>

theorem createMat_by_kind:
  "(interactionType self = ''ZZ'' \<and> 1 < dimn (system1 self) \<and> 1 < dimn (system2 self) \<longrightarrow>
      pauliZ (system1 self) =
        Inr (mat_of (dimn (system1 self)) (dimn (system1 self))
               (\<lambda>i j. if i = 1 \<and> j = 1 then - 1 else if i = 0 \<and> j = 0 then 1 else 0)) \<and>
      pauliZ (system2 self) =
        Inr (mat_of (dimn (system2 self)) (dimn (system2 self))
               (\<lambda>i j. if i = 1 \<and> j = 1 then - 1 else if i = 0 \<and> j = 0 then 1 else 0)) \<and>
      createMat self =
        Inr (self\<lparr>int_matrix :=
               Some (np_scale (1 / 4 * interactionStrength self)
                 (np_kron
                    (mat_of (dimn (system1 self)) (dimn (system1 self))
                       (\<lambda>i j. if i = 1 \<and> j = 1 then - 1 else if i = 0 \<and> j = 0 then 1 else 0))
                    (mat_of (dimn (system2 self)) (dimn (system2 self))
                       (\<lambda>i j. if i = 1 \<and> j = 1 then - 1 else if i = 0 \<and> j = 0 then 1 else 0))))\<rparr>))
   \<and> (interactionType self = ''ZZ'' \<and> \<not> (1 < dimn (system1 self) \<and> 1 < dimn (system2 self)) \<longrightarrow>
      createMat self = Inl AssertionError)
   \<and> (interactionType self = ''FlipFlop'' \<longrightarrow>
      createMat self =
        Inr (self\<lparr>int_matrix :=
               Some (np_scale (interactionStrength self)
                 (mat_add (np_kron (loweringOp (system1 self)) (raisingOp (system2 self)))
                          (np_kron (raisingOp (system1 self)) (loweringOp (system2 self)))))\<rparr>))
   \<and> (interactionType self \<noteq> ''ZZ'' \<and> interactionType self \<noteq> ''FlipFlop'' \<longrightarrow>
      createMat self = Inl NameError)"
proof -
  have zz: "createMat self =
        Inr (self\<lparr>int_matrix :=
               Some (np_scale (1 / 4 * interactionStrength self)
                 (np_kron
                    (mat_of (dimn (system1 self)) (dimn (system1 self))
                       (\<lambda>i j. if i = 1 \<and> j = 1 then - 1 else if i = 0 \<and> j = 0 then 1 else 0))
                    (mat_of (dimn (system2 self)) (dimn (system2 self))
                       (\<lambda>i j. if i = 1 \<and> j = 1 then - 1 else if i = 0 \<and> j = 0 then 1 else 0))))\<rparr>)"
    if "interactionType self = ''ZZ''" "1 < dimn (system1 self)" "1 < dimn (system2 self)"
    using that by (simp add: createMat_def ebind_def pauliZ_mat_of)
  have bad: "createMat self = Inl AssertionError"
    if "interactionType self = ''ZZ''" "\<not> (1 < dimn (system1 self) \<and> 1 < dimn (system2 self))"
  proof (cases "1 < dimn (system1 self)")
    case True
    then have "\<not> 1 < dimn (system2 self)" using that(2) by simp
    then show ?thesis
      using that(1) True by (simp add: createMat_def ebind_def pauliZ_mat_of pauliZ_fails)
  next
    case False
    then show ?thesis
      using that(1) by (simp add: createMat_def ebind_def pauliZ_fails)
  qed
  have ff: "createMat self =
        Inr (self\<lparr>int_matrix :=
               Some (np_scale (interactionStrength self)
                 (mat_add (np_kron (loweringOp (system1 self)) (raisingOp (system2 self)))
                          (np_kron (raisingOp (system1 self)) (loweringOp (system2 self)))))\<rparr>)"
    if "interactionType self = ''FlipFlop''"
    using that by (simp add: createMat_def ebind_def flipflop_sum)
  have other: "createMat self = Inl NameError"
    if "interactionType self \<noteq> ''ZZ''" "interactionType self \<noteq> ''FlipFlop''"
    using that by (simp add: createMat_def)
  show ?thesis
    using zz bad ff other by (simp add: pauliZ_mat_of)
qed

text \<open>
  A qubit of dimension 2 coupled to a qubit of dimension 2 with the kinds \<open>ZZ\<close>, \<open>FlipFlop\<close> and
  the unknown \<open>XX\<close>, and to a system of one level with the kind \<open>ZZ\<close>.
\<close>

theorem createMat_by_kind_witness:
  "createMat \<lparr>system1 = \<lparr>dimn = 2, name = None, omega = 5, delta = - 1, T1 = None, T2 = None\<rparr>,
             system2 = \<lparr>dimn = 2, name = None, omega = 6, delta = - 1, T1 = None, T2 = None\<rparr>,
             interactionType = ''ZZ'', interactionStrength = 4, int_matrix = None\<rparr> =
     Inr \<lparr>system1 = \<lparr>dimn = 2, name = None, omega = 5, delta = - 1, T1 = None, T2 = None\<rparr>,
          system2 = \<lparr>dimn = 2, name = None, omega = 6, delta = - 1, T1 = None, T2 = None\<rparr>,
          interactionType = ''ZZ'', interactionStrength = 4,
          int_matrix = Some [[1, 0, 0, 0], [0, - 1, 0, 0], [0, 0, - 1, 0], [0, 0, 0, 1]]\<rparr>
   \<and> createMat \<lparr>system1 = \<lparr>dimn = 2, name = None, omega = 5, delta = - 1, T1 = None, T2 = None\<rparr>,
             system2 = \<lparr>dimn = 1, name = None, omega = 6, delta = - 1, T1 = None, T2 = None\<rparr>,
             interactionType = ''ZZ'', interactionStrength = 4, int_matrix = None\<rparr> =
     Inl AssertionError
   \<and> createMat \<lparr>system1 = \<lparr>dimn = 2, name = None, omega = 5, delta = - 1, T1 = None, T2 = None\<rparr>,
             system2 = \<lparr>dimn = 2, name = None, omega = 6, delta = - 1, T1 = None, T2 = None\<rparr>,
             interactionType = ''FlipFlop'', interactionStrength = 2, int_matrix = None\<rparr> =
     Inr \<lparr>system1 = \<lparr>dimn = 2, name = None, omega = 5, delta = - 1, T1 = None, T2 = None\<rparr>,
          system2 = \<lparr>dimn = 2, name = None, omega = 6, delta = - 1, T1 = None, T2 = None\<rparr>,
          interactionType = ''FlipFlop'', interactionStrength = 2,
          int_matrix = Some [[0, 0, 0, 0], [0, 0, 2, 0], [0, 2, 0, 0], [0, 0, 0, 0]]\<rparr>
   \<and> createMat \<lparr>system1 = \<lparr>dimn = 2, name = None, omega = 5, delta = - 1, T1 = None, T2 = None\<rparr>,
             system2 = \<lparr>dimn = 2, name = None, omega = 6, delta = - 1, T1 = None, T2 = None\<rparr>,
             interactionType = ''XX'', interactionStrength = 2, int_matrix = None\<rparr> =
     Inl NameError"
proof -
  let ?q1 = "\<lparr>dimn = 2, name = None, omega = 5, delta = - 1, T1 = None, T2 = None\<rparr> :: SCQubit"
  let ?q2 = "\<lparr>dimn = 2, name = None, omega = 6, delta = - 1, T1 = None, T2 = None\<rparr> :: SCQubit"
  let ?q3 = "\<lparr>dimn = 1, name = None, omega = 6, delta = - 1, T1 = None, T2 = None\<rparr> :: SCQubit"
  have z: "mat_of 2 2 (\<lambda>i j. if i = Suc 0 \<and> j = Suc 0 then - 1 else if i = 0 \<and> j = 0 then 1 else 0) =
           [[1, 0], [0, - 1 :: complex]]"
    by (simp add: mat_of_def upt_0_2)
  have lr: "loweringOp ?q1 = [[0, 1], [0, 0]]" "raisingOp ?q1 = [[0, 0], [1, 0]]"
    "loweringOp ?q2 = [[0, 1], [0, 0]]" "raisingOp ?q2 = [[0, 0], [1, 0]]"
    by (simp_all add: loweringOp_mat_of raisingOp_mat_of mat_of_def upt_0_2)
  have k1: "np_kron [[1, 0], [0, - 1]] [[1, 0], [0, - 1]] =
            [[1, 0, 0, 0], [0, - 1, 0, 0], [0, 0, - 1, 0], [0, 0, 0, 1]]"
    by code_simp
  have k2: "mat_add (np_kron [[0, 1], [0, 0]] [[0, 0], [1, 0]]) (np_kron [[0, 0], [1, 0]] [[0, 1], [0, 0]]) =
            [[0, 0, 0, 0], [0, 0, 1, 0], [0, 1, 0, 0], [0, 0, 0, 0]]"
    by code_simp
  have a: ?thesis
    using createMat_by_kind [of "\<lparr>system1 = ?q1, system2 = ?q2, interactionType = ''ZZ'',
              interactionStrength = 4, int_matrix = None\<rparr>"]
      createMat_by_kind [of "\<lparr>system1 = ?q1, system2 = ?q3, interactionType = ''ZZ'',
              interactionStrength = 4, int_matrix = None\<rparr>"]
      createMat_by_kind [of "\<lparr>system1 = ?q1, system2 = ?q2, interactionType = ''FlipFlop'',
              interactionStrength = 2, int_matrix = None\<rparr>"]
      createMat_by_kind [of "\<lparr>system1 = ?q1, system2 = ?q2, interactionType = ''XX'',
              interactionStrength = 2, int_matrix = None\<rparr>"]
    by (simp add: z lr k1 k2 np_scale_def)
  then show ?thesis .
qed


section \<open>The loops of the expansion\<close>

lemma prod_items_single_0: "prod_items (d # ds) [0] = Inr d"
  by (simp add: prod_items_def ebind_def norm_index_def)

lemma swap_until_stop:
  "\<not> int ct < cur ! ct \<Longrightarrow> swap_until fi dims ct (cur, P) = Some (Inr (cur, P))"
  by (subst swap_until.simps) simp

lemma swap_until_step:
  "int ct < cur ! ct \<Longrightarrow> swap_step fi dims ct (cur, P) = Inr st \<Longrightarrow>
   swap_until fi dims ct (cur, P) = swap_until fi dims ct st"
  by (subst swap_until.simps) simp



































section \<open>Expansion at concrete inputs\<close>

subsection \<open>Dimensions 2 and 3, operator on subsystem 1\<close>

lemma calc_perm_mat_3_2:
  "calc_perm_mat 3 2 =
     Inr [[1, 0, 0, 0, 0, 0], [0, 0, 0, 1, 0, 0], [0, 1, 0, 0, 0, 0],
          [0, 0, 0, 0, 1, 0], [0, 0, 1, 0, 0, 0], [0, 0, 0, 0, 0, 1]]"
  by code_simp

lemma kron_diag_eye_2:
  "np_kron [[1, 0, 0], [0, 2, 0], [0, 0, 3]] (np_eye 2) =
     [[1, 0, 0, 0, 0, 0], [0, 1, 0, 0, 0, 0], [0, 0, 2, 0, 0, 0],
      [0, 0, 0, 2, 0, 0], [0, 0, 0, 0, 3, 0], [0, 0, 0, 0, 0, 3]]"
  by (simp add: eye_2 np_kron_def shape_simps mat_of_def upt_0_6)

lemma total_perm_3_2:
  "np_dot (np_kron (np_kron (np_eye (Suc 0))
             [[1, 0, 0, 0, 0, 0], [0, 0, 0, 1, 0, 0], [0, 1, 0, 0, 0, 0],
              [0, 0, 0, 0, 1, 0], [0, 0, 1, 0, 0, 0], [0, 0, 0, 0, 0, 1]]) (np_eye (Suc 0)))
          (np_eye 6) =
     Inr [[1, 0, 0, 0, 0, 0], [0, 0, 0, 1, 0, 0], [0, 1, 0, 0, 0, 0],
          [0, 0, 0, 0, 1, 0], [0, 0, 1, 0, 0, 0], [0, 0, 0, 0, 0, 1]]"
  by (simp add: eye_1 eye_6 kron_one_left kron_one_right np_dot_def shape_simps mat_of_def upt_0_6)

lemma swap_step_2_3:
  "swap_step False [2, 3] 0 ([1, 0], np_eye 6) =
     Inr ([0, 1],
          [[1, 0, 0, 0, 0, 0], [0, 0, 0, 1, 0, 0], [0, 1, 0, 0, 0, 0],
           [0, 0, 0, 0, 1, 0], [0, 0, 1, 0, 0, 0], [0, 0, 0, 0, 0, 1]])"
  by (simp add: swap_step_def Let_def ebind_def norm_index_def calc_perm_mat_3_2 total_perm_3_2
      swap_items_def)

lemma sort_loop_2_3:
  "sort_loop False [2, 3] [0, Suc 0] ([1, 0], np_eye 6) =
     Some (Inr ([0, 1],
          [[1, 0, 0, 0, 0, 0], [0, 0, 0, 1, 0, 0], [0, 1, 0, 0, 0, 0],
           [0, 0, 0, 0, 1, 0], [0, 0, 1, 0, 0, 0], [0, 0, 0, 0, 0, 1]]))"
  by (simp add: swap_until_step [OF _ swap_step_2_3] swap_until_stop)

lemma conjugate_3_2:
  "ebind (np_dot [[1, 0, 0, 0, 0, 0], [0, 0, 0, 1, 0, 0], [0, 1, 0, 0, 0, 0],
                  [0, 0, 0, 0, 1, 0], [0, 0, 1, 0, 0, 0], [0, 0, 0, 0, 0, 1]]
                 [[1, 0, 0, 0, 0, 0], [0, 1, 0, 0, 0, 0], [0, 0, 2, 0, 0, 0],
                  [0, 0, 0, 2, 0, 0], [0, 0, 0, 0, 3, 0], [0, 0, 0, 0, 0, 3]])
     (\<lambda>X. np_dot X (np_transpose
                 [[1, 0, 0, 0, 0, 0], [0, 0, 0, 1, 0, 0], [0, 1, 0, 0, 0, 0],
                  [0, 0, 0, 0, 1, 0], [0, 0, 1, 0, 0, 0], [0, 0, 0, 0, 0, 1]])) =
   Inr [[1, 0, 0, 0, 0, 0], [0, 2, 0, 0, 0, 0], [0, 0, 1, 0, 0, 0],
        [0, 0, 0, 3, 0, 0], [0, 0, 0, 0, 2, 0], [0, 0, 0, 0, 0, 3]]"
  by (simp add: ebind_def np_dot_def np_transpose_def shape_simps mat_of_def upt_0_6)

lemma expand_2_3:
  "expand_hilbert_space [[1, 0, 0], [0, 2, 0], [0, 0, 3]] [1] [0] [2, 3] =
     Some (Inr [[1, 0, 0, 0, 0, 0], [0, 2, 0, 0, 0, 0], [0, 0, 1, 0, 0, 0],
                [0, 0, 0, 3, 0, 0], [0, 0, 0, 0, 2, 0], [0, 0, 0, 0, 0, 3]])"
  by (simp add: expand_hilbert_space_def prod_items_single_0 kron_diag_eye_2 shape_simps
      sort_loop_2_3 conjugate_3_2 del: sort_loop.simps)

lemma basis_perm_2_3:
  "basis_perm [2, 3] [Suc 0, 0] =
     [[1, 0, 0, 0, 0, 0], [0, 0, 1, 0, 0, 0], [0, 0, 0, 0, 1, 0],
      [0, 1, 0, 0, 0, 0], [0, 0, 0, 1, 0, 0], [0, 0, 0, 0, 0, 1]]"
  by (simp add: basis_perm_def canon_index_def pos_of_def mat_of_def upt_0_6 upt_0_2)

lemma embed_spec_2_3:
  "embed_spec [[1, 0, 0], [0, 2, 0], [0, 0, 3]] [1] [0] [2, 3] =
     [[1, 0, 0, 0, 0, 0], [0, 2, 0, 0, 0, 0], [0, 0, 3, 0, 0, 0],
      [0, 0, 0, 1, 0, 0], [0, 0, 0, 0, 2, 0], [0, 0, 0, 0, 0, 3]]"
  by (simp add: embed_spec_def Let_def basis_perm_2_3 kron_diag_eye_2 mat_mul_def np_transpose_def
      shape_simps mat_of_def upt_0_6)

lemma kron_eye_2_diag:
  "np_kron (np_eye 2) [[1, 0, 0], [0, 2, 0], [0, 0, 3]] =
     [[1, 0, 0, 0, 0, 0], [0, 2, 0, 0, 0, 0], [0, 0, 3, 0, 0, 0],
      [0, 0, 0, 1, 0, 0], [0, 0, 0, 0, 2, 0], [0, 0, 0, 0, 0, 3]]"
  by (simp add: eye_2 np_kron_def shape_simps mat_of_def upt_0_6)

subsection \<open>Dimensions 2 and 2, operator on subsystem 1\<close>

text \<open>With equal dimensions the code and the reference embedding agree on this input.\<close>

lemma calc_perm_mat_2_2:
  "calc_perm_mat 2 2 = Inr [[1, 0, 0, 0], [0, 0, 1, 0], [0, 1, 0, 0], [0, 0, 0, 1]]"
  by code_simp

lemma kron_op_eye_2:
  "np_kron [[1, 2], [3, 4]] (np_eye 2) = [[1, 0, 2, 0], [0, 1, 0, 2], [3, 0, 4, 0], [0, 3, 0, 4]]"
  by (simp add: eye_2 np_kron_def shape_simps mat_of_def upt_0_4)

lemma total_perm_2_2:
  "np_dot (np_kron (np_kron (np_eye (Suc 0)) [[1, 0, 0, 0], [0, 0, 1, 0], [0, 1, 0, 0], [0, 0, 0, 1]])
             (np_eye (Suc 0)))
          (np_eye 4) =
     Inr [[1, 0, 0, 0], [0, 0, 1, 0], [0, 1, 0, 0], [0, 0, 0, 1]]"
  by (simp add: eye_1 eye_4 kron_one_left kron_one_right np_dot_def shape_simps mat_of_def upt_0_4)

lemma swap_step_2_2:
  "swap_step False [2, 2] 0 ([1, 0], np_eye 4) =
     Inr ([0, 1], [[1, 0, 0, 0], [0, 0, 1, 0], [0, 1, 0, 0], [0, 0, 0, 1]])"
  by (simp add: swap_step_def Let_def ebind_def norm_index_def calc_perm_mat_2_2 total_perm_2_2
      swap_items_def)

lemma sort_loop_2_2:
  "sort_loop False [2, 2] [0, Suc 0] ([1, 0], np_eye 4) =
     Some (Inr ([0, 1], [[1, 0, 0, 0], [0, 0, 1, 0], [0, 1, 0, 0], [0, 0, 0, 1]]))"
  by (simp add: swap_until_step [OF _ swap_step_2_2] swap_until_stop)

lemma conjugate_2_2:
  "ebind (np_dot [[1, 0, 0, 0], [0, 0, 1, 0], [0, 1, 0, 0], [0, 0, 0, 1]]
                 [[1, 0, 2, 0], [0, 1, 0, 2], [3, 0, 4, 0], [0, 3, 0, 4]])
     (\<lambda>X. np_dot X (np_transpose [[1, 0, 0, 0], [0, 0, 1, 0], [0, 1, 0, 0], [0, 0, 0, 1]])) =
   Inr [[1, 2, 0, 0], [3, 4, 0, 0], [0, 0, 1, 2], [0, 0, 3, 4]]"
  by (simp add: ebind_def np_dot_def np_transpose_def shape_simps mat_of_def upt_0_4)

lemma expand_2_2:
  "expand_hilbert_space [[1, 2], [3, 4]] [1] [0] [2, 2] =
     Some (Inr [[1, 2, 0, 0], [3, 4, 0, 0], [0, 0, 1, 2], [0, 0, 3, 4]])"
  by (simp add: expand_hilbert_space_def prod_items_single_0 kron_op_eye_2 shape_simps
      sort_loop_2_2 conjugate_2_2 del: sort_loop.simps)

lemma basis_perm_2_2:
  "basis_perm [2, 2] [Suc 0, 0] = [[1, 0, 0, 0], [0, 0, 1, 0], [0, 1, 0, 0], [0, 0, 0, 1]]"
  by (simp add: basis_perm_def canon_index_def pos_of_def mat_of_def upt_0_4 upt_0_2)

lemma embed_spec_2_2:
  "embed_spec [[1, 2], [3, 4]] [1] [0] [2, 2] =
     [[1, 2, 0, 0], [3, 4, 0, 0], [0, 0, 1, 2], [0, 0, 3, 4]]"
  by (simp add: embed_spec_def Let_def basis_perm_2_2 kron_op_eye_2 mat_mul_def np_transpose_def
      shape_simps mat_of_def upt_0_4)

lemma expand_agrees_2_2:
  "expand_hilbert_space [[1, 2], [3, 4]] [1] [0] [2, 2] =
     Some (Inr (embed_spec [[1, 2], [3, 4]] [1] [0] [2, 2]))"
  by (simp only: expand_2_2 embed_spec_2_2)

subsection \<open>Three subsystems of dimension 2, operator on subsystems 2 and 0\<close>

text \<open>
  The acting indices are out of order and not contiguous; two swaps bring the subsystems
  into canonical order, and the code and the reference embedding agree on this input.
\<close>

lemma kron_op4_eye_2:
  "np_kron [[1, 2, 3, 4], [5, 6, 7, 8], [9, 10, 11, 12], [13, 14, 15, 16]] (np_eye 2) =
     [[1, 0, 2, 0, 3, 0, 4, 0],
     [0, 1, 0, 2, 0, 3, 0, 4],
     [5, 0, 6, 0, 7, 0, 8, 0],
     [0, 5, 0, 6, 0, 7, 0, 8],
     [9, 0, 10, 0, 11, 0, 12, 0],
     [0, 9, 0, 10, 0, 11, 0, 12],
     [13, 0, 14, 0, 15, 0, 16, 0],
     [0, 13, 0, 14, 0, 15, 0, 16]]"
  by (simp add: eye_2 np_kron_def shape_simps mat_of_def upt_0_8)

lemma first_swap_2_2_2:
  "np_dot (np_kron (np_kron (np_eye (Suc 0)) [[1, 0, 0, 0], [0, 0, 1, 0], [0, 1, 0, 0], [0, 0, 0, 1]]) (np_eye 2))
          (np_eye 8) =
     Inr [[1, 0, 0, 0, 0, 0, 0, 0],
         [0, 1, 0, 0, 0, 0, 0, 0],
         [0, 0, 0, 0, 1, 0, 0, 0],
         [0, 0, 0, 0, 0, 1, 0, 0],
         [0, 0, 1, 0, 0, 0, 0, 0],
         [0, 0, 0, 1, 0, 0, 0, 0],
         [0, 0, 0, 0, 0, 0, 1, 0],
         [0, 0, 0, 0, 0, 0, 0, 1]]"
  by (simp add: eye_1 eye_2 eye_8 kron_one_left np_kron_def np_dot_def shape_simps shape_8
      mat_of_def upt_0_4 upt_0_8)

lemma swap_step_2_2_2_first:
  "swap_step False [2, 2, 2] 0 ([2, 0, 1], np_eye 8) =
     Inr ([0, 2, 1],
          [[1, 0, 0, 0, 0, 0, 0, 0],
          [0, 1, 0, 0, 0, 0, 0, 0],
          [0, 0, 0, 0, 1, 0, 0, 0],
          [0, 0, 0, 0, 0, 1, 0, 0],
          [0, 0, 1, 0, 0, 0, 0, 0],
          [0, 0, 0, 1, 0, 0, 0, 0],
          [0, 0, 0, 0, 0, 0, 1, 0],
          [0, 0, 0, 0, 0, 0, 0, 1]])"
  by (simp add: swap_step_def Let_def ebind_def norm_index_def calc_perm_mat_2_2 prod_through_def prod_items_def
      first_swap_2_2_2 swap_items_def)

lemma second_swap_2_2_2:
  "np_dot (np_kron (np_kron (np_eye 2) [[1, 0, 0, 0], [0, 0, 1, 0], [0, 1, 0, 0], [0, 0, 0, 1]]) (np_eye (Suc 0)))
          [[1, 0, 0, 0, 0, 0, 0, 0],
          [0, 1, 0, 0, 0, 0, 0, 0],
          [0, 0, 0, 0, 1, 0, 0, 0],
          [0, 0, 0, 0, 0, 1, 0, 0],
          [0, 0, 1, 0, 0, 0, 0, 0],
          [0, 0, 0, 1, 0, 0, 0, 0],
          [0, 0, 0, 0, 0, 0, 1, 0],
          [0, 0, 0, 0, 0, 0, 0, 1]] =
     Inr [[1, 0, 0, 0, 0, 0, 0, 0],
         [0, 0, 0, 0, 1, 0, 0, 0],
         [0, 1, 0, 0, 0, 0, 0, 0],
         [0, 0, 0, 0, 0, 1, 0, 0],
         [0, 0, 1, 0, 0, 0, 0, 0],
         [0, 0, 0, 0, 0, 0, 1, 0],
         [0, 0, 0, 1, 0, 0, 0, 0],
         [0, 0, 0, 0, 0, 0, 0, 1]]"
  by (simp add: eye_1 eye_2 kron_one_right np_kron_def np_dot_def shape_simps shape_8
      mat_of_def upt_0_8)

lemma swap_step_2_2_2_second:
  "swap_step False [2, 2, 2] (Suc 0)
     ([0, 2, 1],
      [[1, 0, 0, 0, 0, 0, 0, 0],
      [0, 1, 0, 0, 0, 0, 0, 0],
      [0, 0, 0, 0, 1, 0, 0, 0],
      [0, 0, 0, 0, 0, 1, 0, 0],
      [0, 0, 1, 0, 0, 0, 0, 0],
      [0, 0, 0, 1, 0, 0, 0, 0],
      [0, 0, 0, 0, 0, 0, 1, 0],
      [0, 0, 0, 0, 0, 0, 0, 1]]) =
     Inr ([0, 1, 2],
          [[1, 0, 0, 0, 0, 0, 0, 0],
          [0, 0, 0, 0, 1, 0, 0, 0],
          [0, 1, 0, 0, 0, 0, 0, 0],
          [0, 0, 0, 0, 0, 1, 0, 0],
          [0, 0, 1, 0, 0, 0, 0, 0],
          [0, 0, 0, 0, 0, 0, 1, 0],
          [0, 0, 0, 1, 0, 0, 0, 0],
          [0, 0, 0, 0, 0, 0, 0, 1]])"
  by (simp add: swap_step_def Let_def ebind_def norm_index_def calc_perm_mat_2_2 prod_through_def prod_items_def
      second_swap_2_2_2 swap_items_def)

lemma sort_loop_2_2_2:
  "sort_loop False [2, 2, 2] [0, Suc 0, Suc (Suc 0)] ([2, 0, 1], np_eye 8) =
     Some (Inr ([0, 1, 2],
          [[1, 0, 0, 0, 0, 0, 0, 0],
          [0, 0, 0, 0, 1, 0, 0, 0],
          [0, 1, 0, 0, 0, 0, 0, 0],
          [0, 0, 0, 0, 0, 1, 0, 0],
          [0, 0, 1, 0, 0, 0, 0, 0],
          [0, 0, 0, 0, 0, 0, 1, 0],
          [0, 0, 0, 1, 0, 0, 0, 0],
          [0, 0, 0, 0, 0, 0, 0, 1]]))"
  by (simp add: swap_until_step [OF _ swap_step_2_2_2_first]
      swap_until_step [OF _ swap_step_2_2_2_second] swap_until_stop)

lemma conjugate_2_2_2:
  "ebind (np_dot [[1, 0, 0, 0, 0, 0, 0, 0],
                 [0, 0, 0, 0, 1, 0, 0, 0],
                 [0, 1, 0, 0, 0, 0, 0, 0],
                 [0, 0, 0, 0, 0, 1, 0, 0],
                 [0, 0, 1, 0, 0, 0, 0, 0],
                 [0, 0, 0, 0, 0, 0, 1, 0],
                 [0, 0, 0, 1, 0, 0, 0, 0],
                 [0, 0, 0, 0, 0, 0, 0, 1]]
                 [[1, 0, 2, 0, 3, 0, 4, 0],
                 [0, 1, 0, 2, 0, 3, 0, 4],
                 [5, 0, 6, 0, 7, 0, 8, 0],
                 [0, 5, 0, 6, 0, 7, 0, 8],
                 [9, 0, 10, 0, 11, 0, 12, 0],
                 [0, 9, 0, 10, 0, 11, 0, 12],
                 [13, 0, 14, 0, 15, 0, 16, 0],
                 [0, 13, 0, 14, 0, 15, 0, 16]])
     (\<lambda>X. np_dot X (np_transpose
                 [[1, 0, 0, 0, 0, 0, 0, 0],
                 [0, 0, 0, 0, 1, 0, 0, 0],
                 [0, 1, 0, 0, 0, 0, 0, 0],
                 [0, 0, 0, 0, 0, 1, 0, 0],
                 [0, 0, 1, 0, 0, 0, 0, 0],
                 [0, 0, 0, 0, 0, 0, 1, 0],
                 [0, 0, 0, 1, 0, 0, 0, 0],
                 [0, 0, 0, 0, 0, 0, 0, 1]])) =
   Inr [[1, 3, 0, 0, 2, 4, 0, 0],
       [9, 11, 0, 0, 10, 12, 0, 0],
       [0, 0, 1, 3, 0, 0, 2, 4],
       [0, 0, 9, 11, 0, 0, 10, 12],
       [5, 7, 0, 0, 6, 8, 0, 0],
       [13, 15, 0, 0, 14, 16, 0, 0],
       [0, 0, 5, 7, 0, 0, 6, 8],
       [0, 0, 13, 15, 0, 0, 14, 16]]"
  by (simp add: ebind_def np_dot_def np_transpose_def shape_8 mat_of_def upt_0_8)

lemma expand_2_2_2:
  "expand_hilbert_space [[1, 2, 3, 4], [5, 6, 7, 8], [9, 10, 11, 12], [13, 14, 15, 16]] [2, 0] [1] [2, 2, 2] =
     Some (Inr [[1, 3, 0, 0, 2, 4, 0, 0],
               [9, 11, 0, 0, 10, 12, 0, 0],
               [0, 0, 1, 3, 0, 0, 2, 4],
               [0, 0, 9, 11, 0, 0, 10, 12],
               [5, 7, 0, 0, 6, 8, 0, 0],
               [13, 15, 0, 0, 14, 16, 0, 0],
               [0, 0, 5, 7, 0, 0, 6, 8],
               [0, 0, 13, 15, 0, 0, 14, 16]])"
proof -
  have p: "prod_items [2, 2, 2] [1] = Inr 2"
    by (simp add: prod_items_def ebind_def norm_index_def)
  show ?thesis
    by (simp add: expand_hilbert_space_def p kron_op4_eye_2 shape_8 sort_loop_2_2_2
        conjugate_2_2_2 del: sort_loop.simps)
qed

lemma basis_perm_2_2_2:
  "basis_perm [2, 2, 2] [2, 0, Suc 0] =
     [[1, 0, 0, 0, 0, 0, 0, 0],
     [0, 0, 0, 0, 1, 0, 0, 0],
     [0, 1, 0, 0, 0, 0, 0, 0],
     [0, 0, 0, 0, 0, 1, 0, 0],
     [0, 0, 1, 0, 0, 0, 0, 0],
     [0, 0, 0, 0, 0, 0, 1, 0],
     [0, 0, 0, 1, 0, 0, 0, 0],
     [0, 0, 0, 0, 0, 0, 0, 1]]"
  by (simp add: basis_perm_def canon_index_def pos_of_def mat_of_def upt_0_8 upt_0_3)

lemma embed_spec_2_2_2:
  "embed_spec [[1, 2, 3, 4], [5, 6, 7, 8], [9, 10, 11, 12], [13, 14, 15, 16]] [2, 0] [1] [2, 2, 2] =
     [[1, 3, 0, 0, 2, 4, 0, 0],
     [9, 11, 0, 0, 10, 12, 0, 0],
     [0, 0, 1, 3, 0, 0, 2, 4],
     [0, 0, 9, 11, 0, 0, 10, 12],
     [5, 7, 0, 0, 6, 8, 0, 0],
     [13, 15, 0, 0, 14, 16, 0, 0],
     [0, 0, 5, 7, 0, 0, 6, 8],
     [0, 0, 13, 15, 0, 0, 14, 16]]"
  by (simp add: embed_spec_def Let_def basis_perm_2_2_2 kron_op4_eye_2 mat_mul_def np_transpose_def
      shape_8 mat_of_def upt_0_8)

lemma expand_agrees_2_2_2:
  "expand_hilbert_space [[1, 2, 3, 4], [5, 6, 7, 8], [9, 10, 11, 12], [13, 14, 15, 16]] [2, 0] [1] [2, 2, 2] =
     Some (Inr (embed_spec [[1, 2, 3, 4], [5, 6, 7, 8], [9, 10, 11, 12], [13, 14, 15, 16]] [2, 0] [1] [2, 2, 2]))"
  by (simp only: expand_2_2_2 embed_spec_2_2_2)

subsection \<open>The embedding for subsystems of different dimensions\<close>

text \<open>
  Claim C1 says that for every dimension vector, heterogeneous ones included,
  \<open>expand_hilbert_space\<close> returns \<open>P \<cdot> (operator \<otimes> I) \<cdot> P\<^sup>T\<close>. The code reads the dimensions of
  the two subsystems it swaps at their positions (\<open>dimensions[curInd]\<close>,
  \<open>dimensions[curInd - 1]\<close>) and not at the subsystem indices standing there, as it does for
  \<open>preDim\<close> and \<open>postDim\<close>. For \<open>dimensions = [2, 3]\<close> and \<open>diag(1, 2, 3)\<close> acting on subsystem 1
  it returns \<open>diag(1, 2, 1, 3, 2, 3)\<close>, while the embedding is
  \<open>I\<^sub>2 \<otimes> diag(1, 2, 3) = diag(1, 2, 3, 1, 2, 3)\<close>.
\<close>

theorem expand_heterogeneous_diverges:
  "expand_hilbert_space [[1, 0, 0], [0, 2, 0], [0, 0, 3]] [1] [0] [2, 3] =
     Some (Inr [[1, 0, 0, 0, 0, 0], [0, 2, 0, 0, 0, 0], [0, 0, 1, 0, 0, 0],
                [0, 0, 0, 3, 0, 0], [0, 0, 0, 0, 2, 0], [0, 0, 0, 0, 0, 3]])
   \<and> embed_spec [[1, 0, 0], [0, 2, 0], [0, 0, 3]] [1] [0] [2, 3] =
       [[1, 0, 0, 0, 0, 0], [0, 2, 0, 0, 0, 0], [0, 0, 3, 0, 0, 0],
        [0, 0, 0, 1, 0, 0], [0, 0, 0, 0, 2, 0], [0, 0, 0, 0, 0, 3]]
   \<and> embed_spec [[1, 0, 0], [0, 2, 0], [0, 0, 3]] [1] [0] [2, 3] =
       np_kron (np_eye 2) [[1, 0, 0], [0, 2, 0], [0, 0, 3]]
   \<and> expand_hilbert_space [[1, 0, 0], [0, 2, 0], [0, 0, 3]] [1] [0] [2, 3] \<noteq>
       Some (Inr (embed_spec [[1, 0, 0], [0, 2, 0], [0, 0, 3]] [1] [0] [2, 3]))"
  using expand_2_3 embed_spec_2_3 kron_eye_2_diag by simp

subsection \<open>Malformed partitions\<close>







end
